theory Spec2Isabelle
  imports Main "HOL-Library.Char_ord" "HOL-Library.AList"
begin

section \<open>IRC messages\<close>

text \<open>
  A Go \<^verbatim>\<open>string\<close> is a sequence of bytes, modelled as a \<^typ>\<open>string\<close> (a list of
  \<^typ>\<open>char\<close>, each one byte). \<^verbatim>\<open>irc.Prefix\<close> and \<^verbatim>\<open>irc.Message\<close> are records; a nil
  \<^verbatim>\<open>*irc.Prefix\<close> is \<open>None\<close>. The tag map \<^verbatim>\<open>irc.Tags\<close> is an association list:
  the code iterates over it and deletes entries while doing so.
\<close>

record prefix =
  Name :: string
  User :: string
  Host :: string

record message =
  Tags :: "(string \<times> string) list"
  Prefix :: "prefix option"
  Command :: string
  Params :: "string list"

text \<open>
  Every way in which the modelled code can fail to return is a value: the panics of the
  Go runtime, the calls of \<^verbatim>\<open>panic\<close> in the code, and a loop that never ends.
\<close>

datatype failure =
  NilDereference
  | IndexOutOfRange
  | SliceOutOfRange
  | PanicMessage string
  | NeverReturns

section \<open>Casemapping (irc.go)\<close>

text \<open>
  \<^verbatim>\<open>type casemapping func(string) string\<close>. Each casemapping copies the name to a byte
  slice and rewrites every byte in place; that loop is \<^const>\<open>map\<close> over the bytes.
  \<^verbatim>\<open>r + 'a' - 'A'\<close> is byte arithmetic: \<^const>\<open>char_of\<close> reduces modulo 256.
\<close>

type_synonym casemapping = "string \<Rightarrow> string"

definition isUpperByte :: "char \<Rightarrow> bool" where
  "isUpperByte r \<longleftrightarrow> CHR ''A'' \<le> r \<and> r \<le> CHR ''Z''"

definition isLowerByte :: "char \<Rightarrow> bool" where
  "isLowerByte r \<longleftrightarrow> CHR ''a'' \<le> r \<and> r \<le> CHR ''z''"

definition toLowerByte :: "char \<Rightarrow> char" where
  "toLowerByte r = char_of ((of_char r :: nat) + of_char CHR ''a'' - of_char CHR ''A'')"

definition casemapNone :: casemapping where
  "casemapNone name = name"

definition casemapASCII_byte :: "char \<Rightarrow> char" where
  "casemapASCII_byte r = (if isUpperByte r then toLowerByte r else r)"

definition casemapASCII :: casemapping where
  "casemapASCII name = map casemapASCII_byte name"

definition casemapRFC1459_byte :: "char \<Rightarrow> char" where
  "casemapRFC1459_byte r =
     (if isUpperByte r then toLowerByte r
      else if r = CHR ''{'' then CHR ''[''
      else if r = CHR ''}'' then CHR '']''
      else if r = CHR 0x5C then CHR ''|''
      else if r = CHR ''~'' then CHR ''^''
      else r)"

definition casemapRFC1459 :: casemapping where
  "casemapRFC1459 name = map casemapRFC1459_byte name"

definition casemapRFC1459Strict_byte :: "char \<Rightarrow> char" where
  "casemapRFC1459Strict_byte r =
     (if isUpperByte r then toLowerByte r
      else if r = CHR ''{'' then CHR ''[''
      else if r = CHR ''}'' then CHR '']''
      else if r = CHR 0x5C then CHR ''|''
      else r)"

definition casemapRFC1459Strict :: casemapping where
  "casemapRFC1459Strict name = map casemapRFC1459Strict_byte name"

text \<open>\<^verbatim>\<open>parseCasemappingToken\<close>: the casemapping an ISUPPORT token names, if any.\<close>

definition parseCasemappingToken :: "string \<Rightarrow> casemapping option" where
  "parseCasemappingToken tokenValue =
     (if tokenValue = ''ascii'' then Some casemapASCII
      else if tokenValue = ''rfc1459'' then Some casemapRFC1459
      else if tokenValue = ''rfc1459-strict'' then Some casemapRFC1459Strict
      else None)"

text \<open>
  \<^verbatim>\<open>partialCasemap\<close> keeps the letters of the name and takes every other byte from the
  fully casemapped name. The casemappings above keep the length, so the byte at the same
  index always exists; a shorter result of \<open>higher\<close> would be an index out of range.
\<close>

fun partialCasemap_bytes :: "string \<Rightarrow> string \<Rightarrow> failure + string" where
  "partialCasemap_bytes [] fullyCM = Inr []"
| "partialCasemap_bytes (r # rs) fullyCM =
     (if \<not> isUpperByte r \<and> \<not> isLowerByte r then
        (case fullyCM of
           [] \<Rightarrow> Inl IndexOutOfRange
         | c # cs \<Rightarrow> map_sum id ((#) c) (partialCasemap_bytes rs cs))
      else map_sum id ((#) r) (partialCasemap_bytes rs (tl fullyCM)))"

definition partialCasemap :: "casemapping \<Rightarrow> string \<Rightarrow> failure + string" where
  "partialCasemap higher name = partialCasemap_bytes name (higher name)"

subsection \<open>Idempotence of the casemappings\<close>

lemma char_eq_code: "(r = c) \<longleftrightarrow> ((of_char r :: nat) = of_char c)"
  by (metis char_of_char)

lemma toLowerByte_code:
  "isUpperByte r \<Longrightarrow> (of_char (toLowerByte r) :: nat) = of_char r + 32"
  by (simp add: toLowerByte_def isUpperByte_def less_eq_char_def)

lemma toLowerByte_facts:
  assumes "isUpperByte r"
  shows "\<not> isUpperByte (toLowerByte r)"
    and "toLowerByte r \<noteq> CHR ''{''"
    and "toLowerByte r \<noteq> CHR ''}''"
    and "toLowerByte r \<noteq> CHR 0x5C"
    and "toLowerByte r \<noteq> CHR ''~''"
  using assms toLowerByte_code [OF assms]
  by (simp_all add: char_eq_code [of "toLowerByte r"] isUpperByte_def less_eq_char_def)

lemma not_upper_images:
  "\<not> isUpperByte CHR ''[''" "\<not> isUpperByte CHR '']''"
  "\<not> isUpperByte CHR ''|''" "\<not> isUpperByte CHR ''^''"
  by (simp_all add: isUpperByte_def less_eq_char_def)

lemma casemapASCII_byte_idem:
  "casemapASCII_byte (casemapASCII_byte r) = casemapASCII_byte r"
  by (simp add: casemapASCII_byte_def toLowerByte_facts)

lemma casemapRFC1459_byte_idem:
  "casemapRFC1459_byte (casemapRFC1459_byte r) = casemapRFC1459_byte r"
proof (cases "isUpperByte r")
  case True
  then show ?thesis by (simp add: casemapRFC1459_byte_def toLowerByte_facts)
next
  case False
  with not_upper_images show ?thesis by (simp add: casemapRFC1459_byte_def)
qed

lemma casemapRFC1459Strict_byte_idem:
  "casemapRFC1459Strict_byte (casemapRFC1459Strict_byte r) = casemapRFC1459Strict_byte r"
proof (cases "isUpperByte r")
  case True
  then show ?thesis by (simp add: casemapRFC1459Strict_byte_def toLowerByte_facts)
next
  case False
  with not_upper_images show ?thesis by (simp add: casemapRFC1459Strict_byte_def)
qed

lemma casemapASCII_idem: "casemapASCII (casemapASCII s) = casemapASCII s"
  by (simp add: casemapASCII_def casemapASCII_byte_idem)

lemma casemapRFC1459_idem: "casemapRFC1459 (casemapRFC1459 s) = casemapRFC1459 s"
  by (simp add: casemapRFC1459_def casemapRFC1459_byte_idem)

lemma casemapRFC1459Strict_idem:
  "casemapRFC1459Strict (casemapRFC1459Strict s) = casemapRFC1459Strict s"
  by (simp add: casemapRFC1459Strict_def casemapRFC1459Strict_byte_idem)

lemma casemapRFC1459_example: "casemapRFC1459 ''FOO{}'' = casemapRFC1459 ''foo[]''"
  by code_simp

text \<open>
  Claim C9. Each of the casemappings ascii, rfc1459 and rfc1459-strict is idempotent on
  every string, and the rfc1459 casemapping sends \<open>FOO{}\<close> and \<open>foo[]\<close> to the same
  name.
\<close>

theorem C9_casemap_idempotent:
  "casemapASCII (casemapASCII s) = casemapASCII s
   \<and> casemapRFC1459 (casemapRFC1459 s) = casemapRFC1459 s
   \<and> casemapRFC1459Strict (casemapRFC1459Strict s) = casemapRFC1459Strict s
   \<and> casemapRFC1459 ''FOO{}'' = casemapRFC1459 ''foo[]''"
  using casemapASCII_idem casemapRFC1459_idem casemapRFC1459Strict_idem casemapRFC1459_example
  by blast

section \<open>Highlight detection (irc.go and upstream.go)\<close>

text \<open>
  A Go \<^verbatim>\<open>rune\<close> is a code point, modelled as a \<^typ>\<open>nat\<close>. The highlight test calls
  Go's standard library: the Unicode tables behind \<^verbatim>\<open>unicode.IsLetter\<close> and
  \<^verbatim>\<open>unicode.IsNumber\<close>, and the UTF-8 decoders. They are not code of this repository, so
  the tables and the decoding of multi-byte sequences are parameters, collected in a
  record; the single-byte (ASCII) path of the decoders and the empty-string case are
  modelled as the library has them.
\<close>

record unicode =
  IsLetter :: "nat \<Rightarrow> bool"
  IsNumber :: "nat \<Rightarrow> bool"
  decodeMultiByte :: "string \<Rightarrow> nat"
  decodeLastMultiByte :: "string \<Rightarrow> nat"

definition RuneError :: nat where
  "RuneError = 0xFFFD"

definition RuneSelf :: nat where
  "RuneSelf = 0x80"

definition DecodeRuneInString :: "unicode \<Rightarrow> string \<Rightarrow> nat" where
  "DecodeRuneInString U s =
     (case s of
        [] \<Rightarrow> RuneError
      | c # _ \<Rightarrow> if of_char c < RuneSelf then of_char c else decodeMultiByte U s)"

definition DecodeLastRuneInString :: "unicode \<Rightarrow> string \<Rightarrow> nat" where
  "DecodeLastRuneInString U s =
     (if s = [] then RuneError
      else if of_char (last s) < RuneSelf then of_char (last s)
      else decodeLastMultiByte U s)"

text \<open>\<^verbatim>\<open>strings.HasPrefix\<close>, \<^verbatim>\<open>strings.TrimPrefix\<close> and \<^verbatim>\<open>strings.Index\<close> (the first
  index of the substring, \<open>None\<close> for Go's \<open>-1\<close>).\<close>

definition HasPrefix :: "string \<Rightarrow> string \<Rightarrow> bool" where
  "HasPrefix s p \<longleftrightarrow> length p \<le> length s \<and> take (length p) s = p"

definition TrimPrefix :: "string \<Rightarrow> string \<Rightarrow> string" where
  "TrimPrefix s p = (if HasPrefix s p then drop (length p) s else s)"

fun Index :: "string \<Rightarrow> string \<Rightarrow> nat option" where
  "Index [] substr = (if substr = [] then Some 0 else None)"
| "Index (c # s) substr =
     (if HasPrefix (c # s) substr then Some 0 else map_option Suc (Index s substr))"

text \<open>\<^verbatim>\<open>isWordBoundary\<close> of irc.go.\<close>

definition isWordBoundary :: "unicode \<Rightarrow> nat \<Rightarrow> bool" where
  "isWordBoundary U r =
     (if r = of_char CHR ''-'' \<or> r = of_char CHR ''_'' \<or> r = of_char CHR ''|'' then False
      else \<not> IsLetter U r \<and> \<not> IsNumber U r)"

text \<open>\<^verbatim>\<open>isWordBoundary\<close> of upstream.go, which also names the no-break space.\<close>

definition isWordBoundary_upstream :: "unicode \<Rightarrow> nat \<Rightarrow> bool" where
  "isWordBoundary_upstream U r =
     (if r = of_char CHR ''-'' \<or> r = of_char CHR ''_'' \<or> r = of_char CHR ''|'' then False
      else if r = 0xA0 then True
      else \<not> IsLetter U r \<and> \<not> IsNumber U r)"

text \<open>
  \<^verbatim>\<open>isHighlight\<close> of irc.go: a \<^verbatim>\<open>for\<close> loop with no bound. The result is an option:
  \<open>None\<close> is a loop that never returns.
\<close>

partial_function (option) isHighlight :: "unicode \<Rightarrow> string \<Rightarrow> string \<Rightarrow> bool option" where
  "isHighlight U text nick =
     (case Index text nick of
        None \<Rightarrow> Some False
      | Some i \<Rightarrow>
          (let left = DecodeLastRuneInString U (take i text);
               right = DecodeRuneInString U (drop (i + length nick) text)
           in if isWordBoundary U left \<and> isWordBoundary U right then Some True
              else isHighlight U (drop (i + length nick) text) nick))"

text \<open>
  \<^verbatim>\<open>isHighlight\<close> of upstream.go: \<open>left\<close> and \<open>right\<close> stay the zero rune unless
  \<open>i > 0\<close> and \<open>i < len(text)\<close>.
\<close>

partial_function (option) isHighlight_upstream ::
  "unicode \<Rightarrow> string \<Rightarrow> string \<Rightarrow> bool option" where
  "isHighlight_upstream U text nick =
     (case Index text nick of
        None \<Rightarrow> Some False
      | Some i \<Rightarrow>
          (let left = (if i > 0 then DecodeLastRuneInString U (take i text) else 0);
               right = (if i < length text
                        then DecodeRuneInString U (drop (i + length nick) text) else 0)
           in if isWordBoundary_upstream U left \<and> isWordBoundary_upstream U right then Some True
              else isHighlight_upstream U (drop (i + length nick) text) nick))"

subsection \<open>Termination of the highlight loop\<close>

lemma Index_bound: "Index s substr = Some i \<Longrightarrow> i + length substr \<le> length s"
  by (induction s arbitrary: i) (auto simp: HasPrefix_def split: if_splits)

lemma isHighlight_terminates:
  assumes "nick \<noteq> []"
  shows "\<exists>y. isHighlight U s nick = Some y"
  using assms
proof (induction "length s" arbitrary: s rule: less_induct)
  case less
  show ?case
  proof (cases "Index s nick")
    case None
    then show ?thesis by (subst isHighlight.simps) auto
  next
    case (Some i)
    from Index_bound [OF Some] less.prems
    have "length (drop (i + length nick) s) < length s"
      by (cases s) auto
    from less.hyps [OF this less.prems] obtain y where
      "isHighlight U (drop (i + length nick) s) nick = Some y" by blast
    with Some show ?thesis by (subst isHighlight.simps) (auto simp: Let_def)
  qed
qed

lemma isHighlight_upstream_terminates:
  assumes "nick \<noteq> []"
  shows "\<exists>y. isHighlight_upstream U s nick = Some y"
  using assms
proof (induction "length s" arbitrary: s rule: less_induct)
  case less
  show ?case
  proof (cases "Index s nick")
    case None
    then show ?thesis by (subst isHighlight_upstream.simps) auto
  next
    case (Some i)
    from Index_bound [OF Some] less.prems
    have "length (drop (i + length nick) s) < length s"
      by (cases s) auto
    from less.hyps [OF this less.prems] obtain y where
      "isHighlight_upstream U (drop (i + length nick) s) nick = Some y" by blast
    with Some show ?thesis by (subst isHighlight_upstream.simps) (auto simp: Let_def)
  qed
qed

lemma dash_not_boundary:
  "\<not> isWordBoundary V (DecodeRuneInString V ''-'')"
  "\<not> isWordBoundary_upstream V (DecodeRuneInString V ''-'')"
  by (simp_all add: DecodeRuneInString_def isWordBoundary_def isWordBoundary_upstream_def
      RuneSelf_def)

lemma isHighlight_stuck:
  assumes "isHighlight U s nick = Some y"
  shows "\<not> (s = ''-'' \<and> nick = [])"
proof (rule isHighlight.raw_induct
    [where P = "\<lambda>U s nick y. \<not> (s = ''-'' \<and> nick = [])", OF _ assms], rule notI)
  fix ih V s nick y
  assume IH: "\<And>U s nick y. ih U s nick = Some y \<Longrightarrow> \<not> (s = ''-'' \<and> nick = [])"
    and a: "s = ''-'' \<and> nick = []"
    and step: "(case Index s nick of
        None \<Rightarrow> Some False
      | Some i \<Rightarrow>
          (let left = DecodeLastRuneInString V (take i s);
               right = DecodeRuneInString V (drop (i + length nick) s)
           in if isWordBoundary V left \<and> isWordBoundary V right then Some True
              else ih V (drop (i + length nick) s) nick)) = Some y"
  from step a dash_not_boundary(1) [of V] have "ih V ''-'' [] = Some y"
    by (simp add: HasPrefix_def Let_def)
  with IH show False by blast
qed

lemma isHighlight_upstream_stuck:
  assumes "isHighlight_upstream U s nick = Some y"
  shows "\<not> (s = ''-'' \<and> nick = [])"
proof (rule isHighlight_upstream.raw_induct
    [where P = "\<lambda>U s nick y. \<not> (s = ''-'' \<and> nick = [])", OF _ assms], rule notI)
  fix ih V s nick y
  assume IH: "\<And>U s nick y. ih U s nick = Some y \<Longrightarrow> \<not> (s = ''-'' \<and> nick = [])"
    and a: "s = ''-'' \<and> nick = []"
    and step: "(case Index s nick of
        None \<Rightarrow> Some False
      | Some i \<Rightarrow>
          (let left = (if i > 0 then DecodeLastRuneInString V (take i s) else 0);
               right = (if i < length s
                        then DecodeRuneInString V (drop (i + length nick) s) else 0)
           in if isWordBoundary_upstream V left \<and> isWordBoundary_upstream V right then Some True
              else ih V (drop (i + length nick) s) nick)) = Some y"
  from step a dash_not_boundary(2) [of V] have "ih V ''-'' [] = Some y"
    by (simp add: HasPrefix_def Let_def)
  with IH show False by blast
qed

text \<open>
  Claim C10 says that the highlight test returns on every pair of strings, the empty
  nick included. On the text \<open>-\<close> and the empty nick neither version returns:
  \<^verbatim>\<open>strings.Index\<close> finds the empty nick at index 0, the rune to the right is \<open>-\<close>,
  which is no word boundary, and the text is cut at index \<open>0 + len(nick) = 0\<close>, so the
  next iteration starts from the same text.
\<close>

theorem C10_isHighlight_empty_nick_never_returns:
  "isHighlight U ''-'' '''' = None \<and> isHighlight_upstream U ''-'' '''' = None"
proof
  show "isHighlight U ''-'' '''' = None"
    using isHighlight_stuck [of U "''-''" "[]"] by (cases "isHighlight U ''-'' ''''") auto
  show "isHighlight_upstream U ''-'' '''' = None"
    using isHighlight_upstream_stuck [of U "''-''" "[]"]
    by (cases "isHighlight_upstream U ''-'' ''''") auto
qed

section \<open>Name-indexed maps (irc.go)\<close>

text \<open>
  \<^verbatim>\<open>casemapMap\<close> holds a Go map from the casemapped name to an entry (the original key
  and the value) and the casemapping in use. The Go map is an association list with the
  operations of the library theory AList: \<^const>\<open>map_of\<close> looks a key up,
  \<^const>\<open>AList.update\<close> stores and \<^const>\<open>AList.delete\<close> deletes. Go iterates over a map
  in an unspecified order; the order of the list stands for it, and no theorem below
  depends on it.
\<close>

record 'v casemapEntry =
  originalKey :: string
  entryValue :: 'v

record 'v casemapMap =
  innerMap :: "(string \<times> 'v casemapEntry) list"
  casemap :: casemapping

definition newCasemapMap :: "'v casemapMap" where
  "newCasemapMap = \<lparr>innerMap = [], casemap = casemapNone\<rparr>"

definition OriginalKey :: "'v casemapMap \<Rightarrow> string \<Rightarrow> string option" where
  "OriginalKey cm name =
     (case map_of (innerMap cm) (casemap cm name) of
        None \<Rightarrow> None
      | Some entry \<Rightarrow> Some (originalKey entry))"

definition Has :: "'v casemapMap \<Rightarrow> string \<Rightarrow> bool" where
  "Has cm name \<longleftrightarrow> map_of (innerMap cm) (casemap cm name) \<noteq> None"

definition Len :: "'v casemapMap \<Rightarrow> nat" where
  "Len cm = length (innerMap cm)"

definition SetValue :: "'v casemapMap \<Rightarrow> string \<Rightarrow> 'v \<Rightarrow> 'v casemapMap" where
  "SetValue cm name v =
     (let nameCM = casemap cm name in
      case map_of (innerMap cm) nameCM of
        None \<Rightarrow>
          cm\<lparr>innerMap :=
               AList.update nameCM \<lparr>originalKey = name, entryValue = v\<rparr> (innerMap cm)\<rparr>
      | Some entry \<Rightarrow>
          cm\<lparr>innerMap := AList.update nameCM (entry\<lparr>entryValue := v\<rparr>) (innerMap cm)\<rparr>)"

definition Delete :: "'v casemapMap \<Rightarrow> string \<Rightarrow> 'v casemapMap" where
  "Delete cm name = cm\<lparr>innerMap := AList.delete (casemap cm name) (innerMap cm)\<rparr>"

text \<open>
  The loop of \<^verbatim>\<open>SetCasemapping\<close>: every entry of the old map is stored in the new map
  under the new casemapping of its original key.
\<close>

fun rehash :: "casemapping \<Rightarrow> (string \<times> 'v casemapEntry) list \<Rightarrow>
    (string \<times> 'v casemapEntry) list \<Rightarrow> (string \<times> 'v casemapEntry) list" where
  "rehash newCasemap [] newInnerMap = newInnerMap"
| "rehash newCasemap ((k, entry) # rest) newInnerMap =
     rehash newCasemap rest (AList.update (newCasemap (originalKey entry)) entry newInnerMap)"

definition SetCasemapping :: "'v casemapMap \<Rightarrow> casemapping \<Rightarrow> 'v casemapMap" where
  "SetCasemapping cm newCasemap =
     cm\<lparr>casemap := newCasemap, innerMap := rehash newCasemap (innerMap cm) []\<rparr>"

text \<open>
  The typed wrappers (\<^verbatim>\<open>upstreamChannelCasemapMap.Value\<close>, \<^verbatim>\<open>channelCasemapMap.Value\<close>,
  \<^verbatim>\<open>membershipsCasemapMap.Value\<close>, \<^verbatim>\<open>deliveredCasemapMap.Value\<close>) differ in the type of
  the value only: nil, here \<open>None\<close>, when the name has no entry.
\<close>

definition Value :: "'v casemapMap \<Rightarrow> string \<Rightarrow> 'v option" where
  "Value cm name =
     (case map_of (innerMap cm) (casemap cm name) of
        None \<Rightarrow> None
      | Some entry \<Rightarrow> Some (entryValue entry))"

text \<open>
  Every entry of a map that was filled through \<^const>\<open>SetValue\<close> and rehashed through
  \<^const>\<open>SetCasemapping\<close> sits under the casemapping of its original key.
\<close>

definition keyed :: "'v casemapMap \<Rightarrow> bool" where
  "keyed cm \<longleftrightarrow>
     list_all (\<lambda>(k, entry). k = casemap cm (originalKey entry)) (innerMap cm)
     \<and> distinct (map fst (innerMap cm))"

subsection \<open>Lookup after a store, and the invariant\<close>

lemma Value_SetValue_same [simp]: "Value (SetValue cm name v) name = Some v"
  by (simp add: Value_def SetValue_def Let_def update_conv' split: option.splits)

lemma Value_SetValue_eq:
  "casemap cm name' = casemap cm name \<Longrightarrow> Value (SetValue cm name v) name' = Some v"
  by (simp add: Value_def SetValue_def Let_def update_conv' split: option.splits)


lemma casemap_SetValue [simp]: "casemap (SetValue cm name v) = casemap cm"
  by (simp add: SetValue_def Let_def split: option.splits)

lemma keyed_new: "keyed newCasemapMap"
  by (simp add: keyed_def newCasemapMap_def)

lemma list_all_update:
  "list_all P al \<Longrightarrow> P (k, v) \<Longrightarrow> list_all P (AList.update k v al)"
  by (induction al) auto

lemma map_of_keyed:
  assumes "list_all (\<lambda>(k, entry). k = f (originalKey entry)) al" and "map_of al k = Some entry"
  shows "k = f (originalKey entry)"
  using assms by (induction al) (auto split: if_splits)

lemma keyed_SetValue: "keyed cm \<Longrightarrow> keyed (SetValue cm name v)"
  unfolding keyed_def SetValue_def Let_def
  by (auto split: option.splits intro!: list_all_update distinct_update
      dest: map_of_keyed [where f = "casemap cm"])

lemma rehash_keyed:
  "list_all (\<lambda>(k, entry). k = f (originalKey entry)) acc \<Longrightarrow> distinct (map fst acc) \<Longrightarrow>
   list_all (\<lambda>(k, entry). k = f (originalKey entry)) (rehash f al acc)
   \<and> distinct (map fst (rehash f al acc))"
  by (induction f al acc rule: rehash.induct) (auto intro!: list_all_update distinct_update)

lemma keyed_SetCasemapping: "keyed (SetCasemapping cm newCasemap)"
  using rehash_keyed [of newCasemap "[]" "innerMap cm"]
  by (simp add: keyed_def SetCasemapping_def)

subsection \<open>What a rehash keeps\<close>

lemma map_of_rehash:
  "map_of (rehash f al acc) K =
     (case filter (\<lambda>(k, entry). f (originalKey entry) = K) al of
        [] \<Rightarrow> map_of acc K
      | e # es \<Rightarrow> Some (snd (last (e # es))))"
proof (induction f al acc rule: rehash.induct)
  case (1 newCasemap newInnerMap)
  then show ?case by simp
next
  case (2 newCasemap k entry rest newInnerMap)
  then show ?case
    by (auto simp: update_conv' split: list.splits)
qed

lemma rehash_unique:
  assumes "(k0, e) \<in> set al"
    and "\<forall>(k', e') \<in> set al. (k', e') \<noteq> (k0, e) \<longrightarrow> f (originalKey e') \<noteq> f (originalKey e)"
  shows "map_of (rehash f al []) (f (originalKey e)) = Some e"
proof -
  let ?hits = "filter (\<lambda>(k, entry). f (originalKey entry) = f (originalKey e)) al"
  from assms(1) have mem: "(k0, e) \<in> set ?hits" by simp
  then obtain h hs where hs: "?hits = h # hs" by (cases ?hits) auto
  have "\<forall>x \<in> set ?hits. x = (k0, e)" using assms(2) by auto
  then have "last ?hits = (k0, e)"
    using hs by (metis last_in_set list.distinct(1))
  then show ?thesis by (simp add: map_of_rehash hs)
qed

text \<open>
  Claim C7, as amended. An entry of the map before the swap whose original key shares its
  new casemapping with no other entry's original key keeps its value: after
  \<open>SetCasemapping(newCasemap)\<close>, \<open>Value(k)\<close> returns that value for the original key
  \<open>k\<close> of the entry, and for every name \<open>k\<close> the new casemapping identifies with it.
\<close>

theorem C7_SetCasemapping_preserves_uncollided:
  assumes "(k0, e) \<in> set (innerMap cm)"
    and "\<forall>(k', e') \<in> set (innerMap cm).
           (k', e') \<noteq> (k0, e) \<longrightarrow> newCasemap (originalKey e') \<noteq> newCasemap (originalKey e)"
    and "newCasemap k = newCasemap (originalKey e)"
  shows "Value (SetCasemapping cm newCasemap) k = Some (entryValue e)"
  using rehash_unique [OF assms(1,2)] assms(3)
  by (simp add: Value_def SetCasemapping_def)

text \<open>
  The map of the witness and of the counterexample is built through the interface, from
  \<^const>\<open>newCasemapMap\<close> (whose casemapping is \<^const>\<open>casemapNone\<close>).
\<close>

definition twoNicks :: "nat casemapMap" where
  "twoNicks = SetValue (SetValue newCasemapMap ''Alice'' 1) ''bob'' 2"

definition twoCases :: "nat casemapMap" where
  "twoCases = SetValue (SetValue newCasemapMap ''A'' 1) ''a'' 2"

lemma twoNicks_innerMap:
  "innerMap twoNicks =
     [(''Alice'', \<lparr>originalKey = ''Alice'', entryValue = 1\<rparr>),
      (''bob'', \<lparr>originalKey = ''bob'', entryValue = 2\<rparr>)]"
  by (simp add: twoNicks_def SetValue_def newCasemapMap_def casemapNone_def Let_def)

lemma twoCases_innerMap:
  "innerMap twoCases =
     [(''A'', \<lparr>originalKey = ''A'', entryValue = 1\<rparr>),
      (''a'', \<lparr>originalKey = ''a'', entryValue = 2\<rparr>)]"
  by (simp add: twoCases_def SetValue_def newCasemapMap_def casemapNone_def Let_def)

theorem C7_SetCasemapping_preserves_uncollided_witness:
  "Value twoNicks ''Alice'' = Some 1
   \<and> Value (SetCasemapping twoNicks casemapASCII) ''Alice'' = Some 1
   \<and> Value (SetCasemapping twoNicks casemapASCII) ''ALICE'' = Some 1"
proof -
  let ?e = "\<lparr>originalKey = ''Alice'', entryValue = 1::nat\<rparr>"
  have mem: "(''Alice'', ?e) \<in> set (innerMap twoNicks)"
    by (simp add: twoNicks_innerMap)
  have other: "\<forall>(k', e') \<in> set (innerMap twoNicks).
      (k', e') \<noteq> (''Alice'', ?e) \<longrightarrow> casemapASCII (originalKey e') \<noteq> casemapASCII (originalKey ?e)"
    by (simp add: twoNicks_innerMap casemapASCII_def)
  have k1: "casemapASCII ''Alice'' = casemapASCII (originalKey ?e)" by simp
  have k2: "casemapASCII ''ALICE'' = casemapASCII (originalKey ?e)" by code_simp
  have cm: "casemap twoNicks = casemapNone"
    by (simp add: twoNicks_def newCasemapMap_def)
  have before: "Value twoNicks ''Alice'' = Some 1"
    by (simp add: Value_def twoNicks_innerMap cm casemapNone_def)
  from C7_SetCasemapping_preserves_uncollided [OF mem other k1]
    C7_SetCasemapping_preserves_uncollided [OF mem other k2] before
  show ?thesis by simp
qed

text \<open>
  The claim as stated fails where two original keys collide under the new casemapping:
  \<open>A\<close> and \<open>a\<close> are two entries under \<^const>\<open>casemapNone\<close> and one under
  \<^const>\<open>casemapASCII\<close>. Whichever entry the loop visits last wins: in one order
  \<open>Value(A)\<close> changes from 1 to 2, in the other \<open>Value(a)\<close> changes from 2 to 1.
\<close>

theorem C7_SetCasemapping_collision_counterexample:
  "Value twoCases ''A'' = Some 1
   \<and> Value (SetCasemapping twoCases casemapASCII) ''A'' = Some 2
   \<and> Value (twoCases\<lparr>innerMap := rev (innerMap twoCases)\<rparr>) ''a'' = Some 2
   \<and> Value (SetCasemapping (twoCases\<lparr>innerMap := rev (innerMap twoCases)\<rparr>) casemapASCII) ''a''
       = Some 1"
proof -
  have cm: "casemap twoCases = casemapNone"
    by (simp add: twoCases_def newCasemapMap_def)
  have A: "casemapASCII ''A'' = ''a''" by code_simp
  have a: "casemapASCII ''a'' = ''a''" by code_simp
  show ?thesis
    by (simp add: Value_def SetCasemapping_def twoCases_innerMap cm casemapNone_def A a)
qed

section \<open>The user's state (user.go, downstream.go, upstream.go)\<close>

text \<open>
  The Go structs point at each other (\<open>dc.user\<close>, \<open>uc.network\<close>, \<open>net.conn\<close>); the
  model keeps one value of the owning struct \<^verbatim>\<open>user\<close> and passes it through every
  function that follows such a pointer. A function that also writes messages returns how
  it ended: \<open>None\<close> when it returned, \<open>Some\<close> failure when it panicked or never
  returned; what was written before the failure stays written.
\<close>

text \<open>\<^verbatim>\<open>database.Filter\<close> and \<^verbatim>\<open>database.Channel\<close>: the fields the modelled code reads.\<close>

datatype Filter = FilterDefault | FilterNone | FilterHighlight | FilterMessage

record Channel =
  ch_Name :: string
  Detached :: bool
  DetachedInternalMsgID :: string
  RelayDetached :: Filter
  ReattachOn :: Filter
  DetachOn :: Filter

text \<open>\<^verbatim>\<open>deliveredClientMap\<close>: client name to message ID. \<^verbatim>\<open>deliveredStore\<close> is a struct
  around one \<^verbatim>\<open>deliveredCasemapMap\<close>.\<close>

type_synonym deliveredClientMap = "string \<rightharpoonup> string"

type_synonym deliveredStore = "deliveredClientMap casemapMap"

record membership =
  Mode :: char
  PrefixChar :: char

text \<open>\<^verbatim>\<open>upstreamChannel\<close> of upstream.go: \<open>Members\<close> is a Go map from the nick, as
  received, to the memberships.\<close>

record upstreamChannel =
  uch_Name :: string
  Members :: "(string \<times> membership list) list"
  complete :: bool

text \<open>\<^verbatim>\<open>batch\<close>, a value of the map \<open>uc.batches\<close>: the fields that upstream.go gives it,
  but for the pointer \<open>Outer\<close> to the enclosing batch.\<close>

record batch =
  batch_Type :: string
  batch_Params :: "string list"
  batch_Label :: string

record upstreamConn =
  uc_nick :: string
  uc_nickCM :: string
  uc_channels :: "(string \<times> upstreamChannel) list"
  uc_caps :: "string \<Rightarrow> bool"
  uc_batches :: "(string \<times> batch) list"
  registered :: bool
  pendingLISTDownstreamSet :: "nat set"
  nextLabelID :: nat
  uc_outgoing :: "message list"

text \<open>\<^verbatim>\<open>networkHistory\<close> and the fields \<open>history\<close> (here \<open>net_history\<close>) and \<open>offlineClients\<close> belong to the
  revision of \<^verbatim>\<open>network\<close> that upstream.go was written against.\<close>

record network =
  ID :: int
  GetName :: string
  Nick :: string
  conn :: "upstreamConn option"
  channels :: "Channel casemapMap"
  delivered :: deliveredStore
  net_casemap :: casemapping
  net_history :: "(string \<times> (string \<rightharpoonup> string)) list"
  offlineClients :: "string list"

text \<open>
  \<^verbatim>\<open>downstreamConn\<close>. \<open>dc.network\<close> is a pointer to a network of the user or nil; the
  network's database ID stands for the pointer. \<open>dc_outgoing\<close> is the queue that
  \<^verbatim>\<open>conn.SendMessage\<close> feeds. \<open>dc_Username\<close> is \<open>dc.user.Username\<close> and
  \<open>srv_Hostname\<close> is \<open>dc.srv.Hostname\<close>.
\<close>

record downstreamConn =
  dc_id :: nat
  dc_nick :: string
  dc_nickCM :: string
  clientName :: string
  hostname :: string
  dc_Username :: string
  srv_Hostname :: string
  dc_network :: "int option"
  dc_caps :: "string \<Rightarrow> bool"
  dc_outgoing :: "message list"

record pendingLIST =
  downstreamID :: nat
  pendingCommands :: "(int \<times> message) list"

record 'st user =
  networks :: "network list"
  downstreamConns :: "downstreamConn list"
  pendingLISTs :: "pendingLIST list"
  msgStore :: "'st option"

text \<open>Sequencing of two steps on the same state: the second runs when the first returned.\<close>

definition andThen ::
  "'s \<times> failure option \<Rightarrow> ('s \<Rightarrow> 's \<times> failure option) \<Rightarrow> 's \<times> failure option" where
  "andThen r f = (case r of (s, None) \<Rightarrow> f s | (s, Some e) \<Rightarrow> (s, Some e))"

section \<open>Sending to a downstream connection (downstream.go)\<close>

text \<open>\<^verbatim>\<open>conn.SendMessage\<close> is not in the sources read here; it queues the message for the
  connection's writer.\<close>

definition conn_SendMessage :: "downstreamConn \<Rightarrow> message \<Rightarrow> downstreamConn \<times> failure option" where
  "conn_SendMessage dc msg = (dc\<lparr>dc_outgoing := dc_outgoing dc @ [msg]\<rparr>, None)"

text \<open>The loop over \<open>msg.Tags\<close> in \<^verbatim>\<open>SendMessage\<close>: a tag stays when it is supported, and
  only \<open>time\<close> can be.\<close>

definition tagSupported :: "downstreamConn \<Rightarrow> string \<Rightarrow> bool" where
  "tagSupported dc name = (if name = ''time'' then dc_caps dc ''server-time'' else False)"

text \<open>
  \<^verbatim>\<open>downstreamConn.SendMessage\<close>. \<open>msg.Params[:1]\<close> on a message without parameters is
  a slice out of range (the capacity of the parameter slice is taken to be its length).
\<close>

definition SendMessage :: "downstreamConn \<Rightarrow> message \<Rightarrow> downstreamConn \<times> failure option" where
  "SendMessage dc msg =
     (if \<not> dc_caps dc ''message-tags'' \<and> Command msg = ''TAGMSG'' then (dc, None)
      else
        let msg1 = (if \<not> dc_caps dc ''message-tags''
                    then msg\<lparr>Tags := filter (\<lambda>(name, v). tagSupported dc name) (Tags msg)\<rparr>
                    else msg)
        in if Command msg1 = ''JOIN'' \<and> \<not> dc_caps dc ''extended-join'' then
             (if Params msg1 = [] then (dc, Some SliceOutOfRange)
              else conn_SendMessage dc (msg1\<lparr>Params := take 1 (Params msg1)\<rparr>))
           else conn_SendMessage dc msg1)"

definition messageSupportsHistory :: "message \<Rightarrow> bool" where
  "messageSupportsHistory msg \<longleftrightarrow> Command msg = ''PRIVMSG'' \<or> Command msg = ''NOTICE''"

definition sendPing :: "downstreamConn \<Rightarrow> string \<Rightarrow> downstreamConn \<times> failure option" where
  "sendPing dc msgID =
     (let token = ''soju-msgid-'' @ msgID
      in SendMessage dc \<lparr>Tags = [], Prefix = None, Command = ''PING'', Params = [token]\<rparr>)"

definition sendMessageWithID ::
  "downstreamConn \<Rightarrow> message \<Rightarrow> string \<Rightarrow> downstreamConn \<times> failure option" where
  "sendMessageWithID dc msg msgID =
     andThen (SendMessage dc msg)
       (\<lambda>dc. if msgID = '''' \<or> \<not> messageSupportsHistory msg then (dc, None)
             else sendPing dc msgID)"


text \<open>
  Claim C8. On a downstream without the message-tags capability a TAGMSG is dropped
  (nothing is queued), and any other message is queued with every tag removed but
  \<open>time\<close>, which stays only when server-time is enabled. On a downstream without the
  extended-join capability a JOIN is queued with its first parameter only.
\<close>

theorem C8_SendMessage_filters:
  "(\<not> dc_caps dc ''message-tags'' \<and> Command msg = ''TAGMSG'' \<longrightarrow>
      SendMessage dc msg = (dc, None))
   \<and> (\<not> dc_caps dc ''message-tags'' \<and> Command msg \<noteq> ''TAGMSG'' \<and> Command msg \<noteq> ''JOIN'' \<longrightarrow>
      SendMessage dc msg =
        (dc\<lparr>dc_outgoing := dc_outgoing dc @
            [msg\<lparr>Tags := filter (\<lambda>(name, v). name = ''time'' \<and> dc_caps dc ''server-time'')
                            (Tags msg)\<rparr>]\<rparr>, None))
   \<and> (\<not> dc_caps dc ''message-tags'' \<and> Command msg = ''JOIN'' \<and> Params msg \<noteq> [] \<longrightarrow>
      (\<exists>out. SendMessage dc msg = (dc\<lparr>dc_outgoing := dc_outgoing dc @ [out]\<rparr>, None)
         \<and> Tags out = filter (\<lambda>(name, v). name = ''time'' \<and> dc_caps dc ''server-time'')
                         (Tags msg)))
   \<and> (\<not> dc_caps dc ''extended-join'' \<and> Command msg = ''JOIN'' \<and> Params msg \<noteq> [] \<longrightarrow>
      (\<exists>out. SendMessage dc msg = (dc\<lparr>dc_outgoing := dc_outgoing dc @ [out]\<rparr>, None)
         \<and> Command out = ''JOIN'' \<and> Params out = [hd (Params msg)]))"
proof -
  have tags: "filter (\<lambda>(name, v). tagSupported dc name) ts
      = filter (\<lambda>(name, v). name = ''time'' \<and> dc_caps dc ''server-time'') ts" for ts
    by (rule filter_cong) (auto simp: tagSupported_def split: if_splits)
  have first: "ps \<noteq> [] \<Longrightarrow> take (Suc 0) ps = [hd ps]" for ps :: "string list"
    by (cases ps) auto
  have dropped: "\<not> dc_caps dc ''message-tags'' \<and> Command msg = ''TAGMSG'' \<longrightarrow>
      SendMessage dc msg = (dc, None)"
    by (simp add: SendMessage_def)
  have stripped: "\<not> dc_caps dc ''message-tags'' \<and> Command msg \<noteq> ''TAGMSG''
      \<and> Command msg \<noteq> ''JOIN'' \<longrightarrow>
      SendMessage dc msg =
        (dc\<lparr>dc_outgoing := dc_outgoing dc @
            [msg\<lparr>Tags := filter (\<lambda>(name, v). name = ''time'' \<and> dc_caps dc ''server-time'')
                            (Tags msg)\<rparr>]\<rparr>, None)"
    by (simp add: SendMessage_def conn_SendMessage_def Let_def tags)
  have join_out: "Command msg = ''JOIN'' \<and> Params msg \<noteq> [] \<longrightarrow>
      SendMessage dc msg =
        (dc\<lparr>dc_outgoing := dc_outgoing dc @
           [msg\<lparr>Tags := (if dc_caps dc ''message-tags'' then Tags msg
                           else filter (\<lambda>(name, v). name = ''time'' \<and> dc_caps dc ''server-time'')
                                  (Tags msg)),
                  Params := (if dc_caps dc ''extended-join'' then Params msg
                             else [hd (Params msg)])\<rparr>]\<rparr>, None)"
    by (simp add: SendMessage_def conn_SendMessage_def Let_def tags first)
  have join_tags: "\<not> dc_caps dc ''message-tags'' \<and> Command msg = ''JOIN'' \<and> Params msg \<noteq> [] \<longrightarrow>
      (\<exists>out. SendMessage dc msg = (dc\<lparr>dc_outgoing := dc_outgoing dc @ [out]\<rparr>, None)
         \<and> Tags out = filter (\<lambda>(name, v). name = ''time'' \<and> dc_caps dc ''server-time'')
                         (Tags msg))"
  proof
    assume a: "\<not> dc_caps dc ''message-tags'' \<and> Command msg = ''JOIN'' \<and> Params msg \<noteq> []"
    let ?out = "msg\<lparr>Tags := filter (\<lambda>(name, v). name = ''time'' \<and> dc_caps dc ''server-time'')
                                  (Tags msg),
                  Params := (if dc_caps dc ''extended-join'' then Params msg
                             else [hd (Params msg)])\<rparr>"
    from a join_out
    have "SendMessage dc msg = (dc\<lparr>dc_outgoing := dc_outgoing dc @ [?out]\<rparr>, None)"
      by simp
    moreover have "Tags ?out = filter (\<lambda>(name, v). name = ''time'' \<and> dc_caps dc ''server-time'')
                         (Tags msg)"
      by simp
    ultimately show "\<exists>out. SendMessage dc msg = (dc\<lparr>dc_outgoing := dc_outgoing dc @ [out]\<rparr>, None)
         \<and> Tags out = filter (\<lambda>(name, v). name = ''time'' \<and> dc_caps dc ''server-time'')
                         (Tags msg)"
      by blast
  qed
  have join_params: "\<not> dc_caps dc ''extended-join'' \<and> Command msg = ''JOIN'' \<and> Params msg \<noteq> [] \<longrightarrow>
      (\<exists>out. SendMessage dc msg = (dc\<lparr>dc_outgoing := dc_outgoing dc @ [out]\<rparr>, None)
         \<and> Command out = ''JOIN'' \<and> Params out = [hd (Params msg)])"
  proof
    assume a: "\<not> dc_caps dc ''extended-join'' \<and> Command msg = ''JOIN'' \<and> Params msg \<noteq> []"
    let ?out = "msg\<lparr>Tags := (if dc_caps dc ''message-tags'' then Tags msg
                           else filter (\<lambda>(name, v). name = ''time'' \<and> dc_caps dc ''server-time'')
                                  (Tags msg)),
                  Params := [hd (Params msg)]\<rparr>"
    from a join_out
    have "SendMessage dc msg = (dc\<lparr>dc_outgoing := dc_outgoing dc @ [?out]\<rparr>, None)"
      by simp
    moreover from a have "Command ?out = ''JOIN'' \<and> Params ?out = [hd (Params msg)]"
      by simp
    ultimately show "\<exists>out. SendMessage dc msg = (dc\<lparr>dc_outgoing := dc_outgoing dc @ [out]\<rparr>, None)
         \<and> Command out = ''JOIN'' \<and> Params out = [hd (Params msg)]"
      by blast
  qed
  from dropped stripped join_tags join_params show ?thesis
    by (intro conjI)
qed

definition phone :: downstreamConn where
  "phone = \<lparr>dc_id = 1, dc_nick = ''me'', dc_nickCM = ''me'', clientName = ''phone'',
     hostname = ''host'', dc_Username = ''user'', srv_Hostname = ''soju'', dc_network = None,
     dc_caps = (\<lambda>c. c = ''server-time''), dc_outgoing = []\<rparr>"

definition joinMsg :: message where
  "joinMsg = \<lparr>Tags = [(''time'', ''t0''), (''account'', ''a'')],
     Prefix = Some \<lparr>Name = ''alice'', User = ''u'', Host = ''h''\<rparr>,
     Command = ''JOIN'', Params = [''#x'', ''acct'', ''Alice A'']\<rparr>"

theorem C8_SendMessage_filters_witness:
  "SendMessage phone (joinMsg\<lparr>Command := ''TAGMSG''\<rparr>) = (phone, None)
   \<and> SendMessage phone (joinMsg\<lparr>Command := ''PRIVMSG''\<rparr>) =
       (phone\<lparr>dc_outgoing :=
          [joinMsg\<lparr>Command := ''PRIVMSG'', Tags := [(''time'', ''t0'')]\<rparr>]\<rparr>, None)
   \<and> (\<exists>out. SendMessage phone joinMsg = (phone\<lparr>dc_outgoing := [out]\<rparr>, None)
         \<and> Tags out = [(''time'', ''t0'')])
   \<and> (\<exists>out. SendMessage phone joinMsg = (phone\<lparr>dc_outgoing := [out]\<rparr>, None)
         \<and> Command out = ''JOIN'' \<and> Params out = [''#x''])"
proof -
  have caps: "\<not> dc_caps phone ''message-tags''" "\<not> dc_caps phone ''extended-join''"
    "dc_caps phone ''server-time''" "dc_outgoing phone = []"
    by (simp_all add: phone_def)
  have m: "Command joinMsg = ''JOIN''" "Params joinMsg = [''#x'', ''acct'', ''Alice A'']"
    "Tags joinMsg = [(''time'', ''t0''), (''account'', ''a'')]"
    by (simp_all add: joinMsg_def)
  from C8_SendMessage_filters [of phone "joinMsg\<lparr>Command := ''TAGMSG''\<rparr>"] caps
  have 1: "SendMessage phone (joinMsg\<lparr>Command := ''TAGMSG''\<rparr>) = (phone, None)"
    by simp
  from C8_SendMessage_filters [of phone "joinMsg\<lparr>Command := ''PRIVMSG''\<rparr>"] caps m
  have 2: "SendMessage phone (joinMsg\<lparr>Command := ''PRIVMSG''\<rparr>) =
       (phone\<lparr>dc_outgoing :=
          [joinMsg\<lparr>Command := ''PRIVMSG'', Tags := [(''time'', ''t0'')]\<rparr>]\<rparr>, None)"
    by simp
  from C8_SendMessage_filters [of phone joinMsg] caps m
  have 3: "\<exists>out. SendMessage phone joinMsg = (phone\<lparr>dc_outgoing := [out]\<rparr>, None)
         \<and> Tags out = [(''time'', ''t0'')]"
    and 4: "\<exists>out. SendMessage phone joinMsg = (phone\<lparr>dc_outgoing := [out]\<rparr>, None)
         \<and> Command out = ''JOIN'' \<and> Params out = [''#x'']"
    by simp_all
  from 1 2 3 4 show ?thesis by blast
qed

section \<open>The delivered store (user.go)\<close>

text \<open>
  \<^verbatim>\<open>deliveredStore\<close> calls \<open>Get\<close> and \<open>Set\<close> on its \<^verbatim>\<open>deliveredCasemapMap\<close>; irc.go
  has them as \<^verbatim>\<open>Value\<close> and \<^verbatim>\<open>SetValue\<close>. A client map is a Go map, shared by
  reference: \<open>clients[clientName] = msgID\<close> changes the map the entry holds, which is
  \<^const>\<open>SetValue\<close> on an entry that exists (the original key stays).
\<close>

definition newDeliveredStore :: deliveredStore where
  "newDeliveredStore = newCasemapMap"

definition HasTarget :: "deliveredStore \<Rightarrow> string \<Rightarrow> bool" where
  "HasTarget ds target \<longleftrightarrow> Value ds target \<noteq> None"

definition LoadID :: "deliveredStore \<Rightarrow> string \<Rightarrow> string \<Rightarrow> string" where
  "LoadID ds target client =
     (case Value ds target of
        None \<Rightarrow> ''''
      | Some clients \<Rightarrow> (case clients client of None \<Rightarrow> '''' | Some msgID \<Rightarrow> msgID))"

definition StoreID :: "deliveredStore \<Rightarrow> string \<Rightarrow> string \<Rightarrow> string \<Rightarrow> deliveredStore" where
  "StoreID ds target client msgID =
     (case Value ds target of
        None \<Rightarrow> SetValue ds target (Map.empty(client \<mapsto> msgID))
      | Some clients \<Rightarrow> SetValue ds target (clients(client \<mapsto> msgID)))"


lemma LoadID_StoreID_same [simp]: "LoadID (StoreID ds target client msgID) target client = msgID"
  by (simp add: LoadID_def StoreID_def split: option.splits)

lemma LoadID_StoreID_eq:
  "casemap ds target' = casemap ds target \<Longrightarrow>
   LoadID (StoreID ds target client msgID) target' client = msgID"
  by (simp add: LoadID_def StoreID_def Value_SetValue_eq split: option.splits)

lemma Value_eq_casemap:
  "casemap cm name' = casemap cm name \<Longrightarrow> Value cm name' = Value cm name"
  by (simp add: Value_def)


lemma casemap_StoreID [simp]: "casemap (StoreID ds target client msgID) = casemap ds"
  by (simp add: StoreID_def split: option.splits)

lemma keyed_StoreID: "keyed ds \<Longrightarrow> keyed (StoreID ds target client msgID)"
  by (simp add: StoreID_def keyed_SetValue split: option.splits)

section \<open>Acknowledging a message ID (downstream.go)\<close>

text \<open>\<^verbatim>\<open>user.getNetworkByID\<close>: the first network of the user with that ID.\<close>

definition getNetworkByID :: "('st, 'x) user_scheme \<Rightarrow> int \<Rightarrow> network option" where
  "getNetworkByID u netID = find (\<lambda>net. ID net = netID) (networks u)"

text \<open>A write through the pointer that \<^const>\<open>getNetworkByID\<close> returned changes the first
  network with that ID in the user's list.\<close>

fun updateNetworkByID :: "int \<Rightarrow> (network \<Rightarrow> network) \<Rightarrow> network list \<Rightarrow> network list" where
  "updateNetworkByID netID f [] = []"
| "updateNetworkByID netID f (net # nets) =
     (if ID net = netID then f net # nets else net # updateNetworkByID netID f nets)"

text \<open>
  \<^verbatim>\<open>ackMsgID\<close>. \<^verbatim>\<open>parseMsgID\<close> belongs to the message store and is not in the sources
  read here: it is a parameter, giving the network ID and the entity that an internal
  message ID names, or \<open>None\<close> for its error. Writing to the log is not modelled.
\<close>

definition ackMsgID ::
  "(string \<Rightarrow> (int \<times> string) option) \<Rightarrow> ('st, 'x) user_scheme \<Rightarrow> downstreamConn \<Rightarrow> string \<Rightarrow>
     ('st, 'x) user_scheme" where
  "ackMsgID parseMsgID u dc msgID =
     (case parseMsgID msgID of
        None \<Rightarrow> u
      | Some (netID, entity) \<Rightarrow>
          (case getNetworkByID u netID of
             None \<Rightarrow> u
           | Some net \<Rightarrow>
               u\<lparr>networks :=
                   updateNetworkByID netID
                     (\<lambda>net. net\<lparr>delivered := StoreID (delivered net) entity (clientName dc) msgID\<rparr>)
                     (networks u)\<rparr>))"

definition handlePong ::
  "(string \<Rightarrow> (int \<times> string) option) \<Rightarrow> ('st, 'x) user_scheme \<Rightarrow> downstreamConn \<Rightarrow> string \<Rightarrow>
     ('st, 'x) user_scheme" where
  "handlePong parseMsgID u dc token =
     (if \<not> HasPrefix token ''soju-msgid-'' then u
      else let msgID = TrimPrefix token ''soju-msgid-'' in ackMsgID parseMsgID u dc msgID)"

lemma find_updateNetworkByID:
  "find (\<lambda>net. ID net = netID) nets = Some net \<Longrightarrow> ID (f net) = netID \<Longrightarrow>
   find (\<lambda>net. ID net = netID) (updateNetworkByID netID f nets) = Some (f net)"
  by (induction nets) (auto split: if_splits)

lemma HasPrefix_append: "HasPrefix (p @ s) p"
  by (simp add: HasPrefix_def)

lemma TrimPrefix_append: "TrimPrefix (p @ s) p = s"
  by (simp add: TrimPrefix_def HasPrefix_def)

lemma PRIVMSG_not_special:
  "Command msg = ''PRIVMSG'' \<or> Command msg = ''NOTICE'' \<Longrightarrow>
   Command msg \<noteq> ''TAGMSG'' \<and> Command msg \<noteq> ''JOIN''"
  by auto

lemma sendMessageWithID_pings:
  assumes "Command msg = ''PRIVMSG'' \<or> Command msg = ''NOTICE''" and "msgID \<noteq> ''''"
  shows "\<exists>sent. sendMessageWithID dc msg msgID =
           (dc\<lparr>dc_outgoing := dc_outgoing dc @
               [sent, \<lparr>Tags = [], Prefix = None, Command = ''PING'',
                       Params = [''soju-msgid-'' @ msgID]\<rparr>]\<rparr>, None)
         \<and> Command sent = Command msg \<and> Params sent = Params msg \<and> Prefix sent = Prefix msg"
proof -
  let ?sent = "if dc_caps dc ''message-tags'' then msg
               else msg\<lparr>Tags := filter (\<lambda>(name, v). tagSupported dc name) (Tags msg)\<rparr>"
  from assms(1) have c: "Command msg \<noteq> ''TAGMSG''" "Command msg \<noteq> ''JOIN''" by auto
  then have 1: "SendMessage dc msg = (dc\<lparr>dc_outgoing := dc_outgoing dc @ [?sent]\<rparr>, None)"
    by (simp add: SendMessage_def conn_SendMessage_def Let_def)
  have 2: "sendPing d msgID =
      (d\<lparr>dc_outgoing := dc_outgoing d @
          [\<lparr>Tags = [], Prefix = None, Command = ''PING'',
            Params = [''soju-msgid-'' @ msgID]\<rparr>]\<rparr>, None)" for d
    by (simp add: sendPing_def SendMessage_def conn_SendMessage_def Let_def)
  from assms have "sendMessageWithID dc msg msgID =
      (dc\<lparr>dc_outgoing := dc_outgoing dc @
               [?sent, \<lparr>Tags = [], Prefix = None, Command = ''PING'',
                       Params = [''soju-msgid-'' @ msgID]\<rparr>]\<rparr>, None)"
    by (simp add: sendMessageWithID_def andThen_def 1 2 messageSupportsHistory_def)
  moreover have "Command ?sent = Command msg \<and> Params ?sent = Params msg
      \<and> Prefix ?sent = Prefix msg"
    by simp
  ultimately show ?thesis by blast
qed

text \<open>
  Claim C1. Let \<open>m\<close> be an internal message ID that names target \<open>t\<close> on a network \<open>n\<close>
  of the user. Sending a PRIVMSG (or NOTICE) with ID \<open>m\<close> to a client \<open>c\<close> queues the
  message and then a PING whose token is \<open>soju-msgid-m\<close>; when \<open>c\<close> answers with the
  PONG of that token, \<open>LoadID(t, c.clientName)\<close> on the delivered store of \<open>n\<close> is
  \<open>m\<close>.
\<close>

theorem C1_pong_marks_delivered:
  assumes "Command msg = ''PRIVMSG'' \<or> Command msg = ''NOTICE''"
    and "m \<noteq> ''''"
    and "parseMsgID m = Some (n, t)"
    and "getNetworkByID u n = Some net"
  shows "\<exists>sent token net'.
           sendMessageWithID c msg m =
             (c\<lparr>dc_outgoing := dc_outgoing c @
                 [sent, \<lparr>Tags = [], Prefix = None, Command = ''PING'', Params = [token]\<rparr>]\<rparr>,
              None)
         \<and> token = ''soju-msgid-'' @ m
         \<and> getNetworkByID (handlePong parseMsgID u c token) n = Some net'
         \<and> LoadID (delivered net') t (clientName c) = m"
proof -
  from sendMessageWithID_pings [OF assms(1,2), of c] obtain sent where
    s: "sendMessageWithID c msg m =
             (c\<lparr>dc_outgoing := dc_outgoing c @
                 [sent, \<lparr>Tags = [], Prefix = None, Command = ''PING'',
                         Params = [''soju-msgid-'' @ m]\<rparr>]\<rparr>, None)"
    by blast
  let ?f = "\<lambda>net. net\<lparr>delivered := StoreID (delivered net) t (clientName c) m\<rparr>"
  from assms(4) have f: "find (\<lambda>net. ID net = n) (networks u) = Some net"
    by (simp add: getNetworkByID_def)
  then have idn: "ID net = n"
    by (auto simp: find_Some_iff)
  have pong: "handlePong parseMsgID u c (''soju-msgid-'' @ m) = ackMsgID parseMsgID u c m"
    by (simp only: handlePong_def Let_def HasPrefix_append TrimPrefix_append
        not_True_eq_False if_False)
  from find_updateNetworkByID [OF f, of ?f] idn
  have "getNetworkByID (ackMsgID parseMsgID u c m) n = Some (?f net)"
    by (simp add: ackMsgID_def assms(3) getNetworkByID_def f)
  with pong
  have "getNetworkByID (handlePong parseMsgID u c (''soju-msgid-'' @ m)) n = Some (?f net)"
    by (simp only:)
  moreover have "LoadID (delivered (?f net)) t (clientName c) = m"
    by simp
  ultimately show ?thesis using s by blast
qed

text \<open>The witness: a user with one network, and a parser of IDs of the form
  \<open>target:number\<close> on that network.\<close>

definition libera :: network where
  "libera = \<lparr>ID = 7, GetName = ''libera'', Nick = ''me'', conn = None,
     channels = newCasemapMap\<lparr>casemap := casemapRFC1459\<rparr>,
     delivered = newDeliveredStore\<lparr>casemap := casemapRFC1459\<rparr>,
     net_casemap = casemapRFC1459, net_history = [], offlineClients = []\<rparr>"

definition oneNetwork :: "unit user" where
  "oneNetwork = \<lparr>networks = [libera], downstreamConns = [], pendingLISTs = [],
     msgStore = None\<rparr>"

definition parseColonID :: "string \<Rightarrow> (int \<times> string) option" where
  "parseColonID s =
     (if CHR '':'' \<in> set s then Some (7, takeWhile (\<lambda>c. c \<noteq> CHR '':'') s) else None)"

definition hello :: message where
  "hello = \<lparr>Tags = [], Prefix = Some \<lparr>Name = ''alice'', User = ''u'', Host = ''h''\<rparr>,
     Command = ''PRIVMSG'', Params = [''#chan'', ''hello'']\<rparr>"

theorem C1_pong_marks_delivered_witness:
  "\<exists>sent token net'.
     sendMessageWithID phone hello ''#chan:42'' =
       (phone\<lparr>dc_outgoing := dc_outgoing phone @
           [sent, \<lparr>Tags = [], Prefix = None, Command = ''PING'', Params = [token]\<rparr>]\<rparr>, None)
     \<and> token = ''soju-msgid-#chan:42''
     \<and> getNetworkByID (handlePong parseColonID oneNetwork phone token) 7 = Some net'
     \<and> LoadID (delivered net') ''#chan'' (clientName phone) = ''#chan:42''"
proof -
  have 1: "Command hello = ''PRIVMSG'' \<or> Command hello = ''NOTICE''"
    by (simp add: hello_def)
  have 2: "''#chan:42'' \<noteq> ''''" by simp
  have 3: "parseColonID ''#chan:42'' = Some (7, ''#chan'')"
    by (simp add: parseColonID_def)
  have 4: "getNetworkByID oneNetwork 7 = Some libera"
    by (simp add: getNetworkByID_def oneNetwork_def libera_def)
  from C1_pong_marks_delivered [where msg = hello and m = "''#chan:42''"
      and parseMsgID = parseColonID and n = 7 and t = "''#chan''" and u = oneNetwork
      and net = libera and c = phone, OF 1 2 3 4]
  show ?thesis by simp
qed

section \<open>The message store\<close>

text \<open>
  The message store is an interface of the package \<^verbatim>\<open>msgstore\<close>, outside the sources
  read here. The code is modelled against its operations, collected in a record over
  the store's state \<open>'st\<close>: \<open>None\<close> is the error return. The network argument is its
  ID; the time argument of \<^verbatim>\<open>LastMsgID\<close> is part of the state.
\<close>

record 'st msgStoreOps =
  opLastMsgID :: "'st \<Rightarrow> int \<Rightarrow> string \<Rightarrow> string option"
  opLoadLatestID :: "'st \<Rightarrow> int \<Rightarrow> string \<Rightarrow> string \<Rightarrow> nat \<Rightarrow> message list option"
  opAppend :: "'st \<Rightarrow> int \<Rightarrow> string \<Rightarrow> message \<Rightarrow> 'st \<times> string option"

text \<open>
  Modelled from the spec: the message store, which the spec describes as an append-only
  log per target with lookup by ID. A log is the list of its entries, oldest first, each
  an internal message ID and the message. \<open>LoadLatestID\<close> gives the latest messages
  appended after the entry with the given ID, at most \<open>limit\<close> of them, and fails on an
  ID the log does not hold; \<open>LastMsgID\<close> gives the ID of the newest entry and fails on
  an empty log; \<open>Append\<close> adds an entry under the ID that \<open>newID\<close> gives.
\<close>

type_synonym logStore = "int \<times> string \<Rightarrow> (string \<times> message) list"

definition afterID :: "string \<Rightarrow> (string \<times> message) list \<Rightarrow> (string \<times> message) list" where
  "afterID msgID es = tl (dropWhile (\<lambda>e. fst e \<noteq> msgID) es)"

definition latest :: "nat \<Rightarrow> 'a list \<Rightarrow> 'a list" where
  "latest limit xs = drop (length xs - limit) xs"

definition logLastMsgID :: "logStore \<Rightarrow> int \<Rightarrow> string \<Rightarrow> string option" where
  "logLastMsgID lg netID entity =
     (case lg (netID, entity) of [] \<Rightarrow> None | e # es \<Rightarrow> Some (fst (last (e # es))))"

definition logLoadLatestID ::
  "logStore \<Rightarrow> int \<Rightarrow> string \<Rightarrow> string \<Rightarrow> nat \<Rightarrow> message list option" where
  "logLoadLatestID lg netID entity msgID limit =
     (if msgID \<in> set (map fst (lg (netID, entity)))
      then Some (map snd (latest limit (afterID msgID (lg (netID, entity)))))
      else None)"

definition logAppend ::
  "(int \<Rightarrow> string \<Rightarrow> nat \<Rightarrow> string) \<Rightarrow> logStore \<Rightarrow> int \<Rightarrow> string \<Rightarrow> message \<Rightarrow>
     logStore \<times> string option" where
  "logAppend newID lg netID entity msg =
     (let msgID = newID netID entity (length (lg (netID, entity)))
      in (lg((netID, entity) := lg (netID, entity) @ [(msgID, msg)]), Some msgID))"

definition logStoreOps :: "(int \<Rightarrow> string \<Rightarrow> nat \<Rightarrow> string) \<Rightarrow> logStore msgStoreOps" where
  "logStoreOps newID =
     \<lparr>opLastMsgID = logLastMsgID, opLoadLatestID = logLoadLatestID,
      opAppend = logAppend newID\<rparr>"

section \<open>Marshalling for a downstream connection (downstream.go)\<close>

definition bindE :: "failure + 'a \<Rightarrow> ('a \<Rightarrow> failure + 'b) \<Rightarrow> failure + 'b" where
  "bindE r f = (case r of Inl e \<Rightarrow> Inl e | Inr x \<Rightarrow> f x)"

definition dc_prefix :: "downstreamConn \<Rightarrow> prefix" where
  "dc_prefix dc = \<lparr>Name = dc_nick dc, User = dc_Username dc, Host = hostname dc\<rparr>"

text \<open>\<^verbatim>\<open>Server.prefix\<close> (server.go).\<close>

definition srv_prefix :: "downstreamConn \<Rightarrow> prefix" where
  "srv_prefix dc = \<lparr>Name = srv_Hostname dc, User = '''', Host = ''''\<rparr>"

definition isOurNick :: "network \<Rightarrow> string \<Rightarrow> bool" where
  "isOurNick net nick =
     (case conn net of
        Some uc \<Rightarrow> net_casemap net nick = uc_nickCM uc
      | None \<Rightarrow> net_casemap net nick = net_casemap net (Nick net))"

definition otherNetwork :: "downstreamConn \<Rightarrow> network \<Rightarrow> bool" where
  "otherNetwork dc net = (case dc_network dc of Some netID \<Rightarrow> netID \<noteq> ID net | None \<Rightarrow> False)"

definition marshalEntity :: "downstreamConn \<Rightarrow> network \<Rightarrow> string \<Rightarrow> failure + string" where
  "marshalEntity dc net name =
     (if isOurNick net name then Inr (dc_nick dc)
      else bindE (partialCasemap (net_casemap net) name) (\<lambda>name.
        if dc_network dc \<noteq> None then
          (if otherNetwork dc net
           then Inl (PanicMessage ''soju: tried to marshal an entity for another network'')
           else Inr name)
        else Inr (name @ ''/'' @ GetName net)))"

definition marshalUserPrefix ::
  "downstreamConn \<Rightarrow> network \<Rightarrow> prefix option \<Rightarrow> failure + prefix" where
  "marshalUserPrefix dc net p =
     (case p of
        None \<Rightarrow> Inl NilDereference
      | Some pfx \<Rightarrow>
          if isOurNick net (Name pfx) then Inr (dc_prefix dc)
          else bindE (partialCasemap (net_casemap net) (Name pfx)) (\<lambda>name.
            if dc_network dc \<noteq> None then
              (if otherNetwork dc net
               then Inl (PanicMessage ''soju: tried to marshal a user prefix for another network'')
               else Inr (pfx\<lparr>Name := name\<rparr>))
            else Inr \<lparr>Name = name @ ''/'' @ GetName net, User = User pfx, Host = Host pfx\<rparr>))"

text \<open>\<open>msg.Params[i] = dc.marshalEntity(net, msg.Params[i])\<close>: an index out of range when
  the message has no such parameter.\<close>

definition marshalParam ::
  "downstreamConn \<Rightarrow> network \<Rightarrow> nat \<Rightarrow> message \<Rightarrow> failure + message" where
  "marshalParam dc net i msg =
     (if i < length (Params msg)
      then bindE (marshalEntity dc net (Params msg ! i))
             (\<lambda>name. Inr (msg\<lparr>Params := (Params msg)[i := name]\<rparr>))
      else Inl IndexOutOfRange)"

definition marshalMessage :: "downstreamConn \<Rightarrow> message \<Rightarrow> network \<Rightarrow> failure + message" where
  "marshalMessage dc msg net =
     bindE (marshalUserPrefix dc net (Prefix msg)) (\<lambda>pfx.
       let msg = msg\<lparr>Prefix := Some pfx\<rparr> in
       if Command msg \<in> {''PRIVMSG'', ''NOTICE'', ''TAGMSG'', ''NICK'', ''JOIN'', ''PART'', ''TOPIC''}
       then marshalParam dc net 0 msg
       else if Command msg = ''KICK''
       then bindE (marshalParam dc net 0 msg) (marshalParam dc net 1)
       else if Command msg = ''QUIT'' then Inr msg
       else Inl (PanicMessage (''unexpected '' @ Command msg @ '' message'')))"

section \<open>Backlog replay (downstream.go, user.go)\<close>

text \<open>
  \<^verbatim>\<open>sendServiceNOTICE\<close> is in service.go, outside the sources read here.
  Modelled from the spec: \<^verbatim>\<open>sendServiceNOTICE\<close>, a NOTICE from the bouncer's service
  to the downstream's nick; the prefix of the service is the parameter \<open>servicePrefix\<close>.
\<close>

definition sendServiceNOTICE ::
  "prefix \<Rightarrow> downstreamConn \<Rightarrow> string \<Rightarrow> downstreamConn \<times> failure option" where
  "sendServiceNOTICE servicePrefix dc text =
     SendMessage dc \<lparr>Tags = [], Prefix = Some servicePrefix, Command = ''NOTICE'',
                     Params = [dc_nick dc, text]\<rparr>"

text \<open>\<^verbatim>\<open>network.isHighlight\<close> (user.go): \<open>msg.Params[1]\<close> and \<open>msg.Prefix.Name\<close> are read
  before the highlight test runs, and the test runs only for another sender.\<close>

definition net_isHighlight :: "unicode \<Rightarrow> network \<Rightarrow> message \<Rightarrow> failure + bool" where
  "net_isHighlight U net msg =
     (if Command msg \<noteq> ''PRIVMSG'' \<and> Command msg \<noteq> ''NOTICE'' then Inr False
      else if length (Params msg) < 2 then Inl IndexOutOfRange
      else
        let text = Params msg ! 1;
            nick = (case conn net of Some uc \<Rightarrow> uc_nick uc | None \<Rightarrow> Nick net)
        in case Prefix msg of
             None \<Rightarrow> Inl NilDereference
           | Some pfx \<Rightarrow>
               if Name pfx = nick then Inr False
               else (case isHighlight U text nick of
                       None \<Rightarrow> Inl NeverReturns
                     | Some b \<Rightarrow> Inr b))"

definition detachedMessageNeedsRelay ::
  "unicode \<Rightarrow> network \<Rightarrow> Channel \<Rightarrow> message \<Rightarrow> failure + bool" where
  "detachedMessageNeedsRelay U net ch msg =
     bindE (net_isHighlight U net msg) (\<lambda>highlight.
       Inr (RelayDetached ch = FilterMessage
            \<or> ((RelayDetached ch = FilterHighlight \<or> RelayDetached ch = FilterDefault)
                \<and> highlight)))"

definition relayDetachedMessage ::
  "unicode \<Rightarrow> prefix \<Rightarrow> downstreamConn \<Rightarrow> network \<Rightarrow> message \<Rightarrow>
     downstreamConn \<times> failure option" where
  "relayDetachedMessage U servicePrefix dc net msg =
     (if Command msg \<noteq> ''PRIVMSG'' \<and> Command msg \<noteq> ''NOTICE'' then (dc, None)
      else case Prefix msg of
        None \<Rightarrow> (dc, Some NilDereference)
      | Some pfx \<Rightarrow>
          if length (Params msg) < 2 then (dc, Some IndexOutOfRange)
          else
            let sender = Name pfx; target = Params msg ! 0; text = Params msg ! 1
            in case net_isHighlight U net msg of
                 Inl e \<Rightarrow> (dc, Some e)
               | Inr highlight \<Rightarrow>
                   (case marshalEntity dc net target of
                      Inl e \<Rightarrow> (dc, Some e)
                    | Inr name \<Rightarrow>
                        sendServiceNOTICE servicePrefix dc
                          ((if highlight then ''highlight in '' else ''message in '')
                           @ name @ '': <'' @ sender @ ''> '' @ text)))"

text \<open>The body of the loop over the history in \<^verbatim>\<open>sendTargetBacklog\<close>; \<open>ch\<close> is the
  channel record of the target, \<open>None\<close> for nil.\<close>

definition forwardHistory ::
  "downstreamConn \<Rightarrow> network \<Rightarrow> message \<Rightarrow> downstreamConn \<times> failure option" where
  "forwardHistory dc net msg =
     (let msg = (if dc_caps dc ''batch''
                 then msg\<lparr>Tags := AList.update ''batch'' ''history'' (Tags msg)\<rparr> else msg)
      in case marshalMessage dc msg net of
           Inl e \<Rightarrow> (dc, Some e)
         | Inr m \<Rightarrow> SendMessage dc m)"

definition replayMessage ::
  "unicode \<Rightarrow> prefix \<Rightarrow> network \<Rightarrow> Channel option \<Rightarrow> message \<Rightarrow> downstreamConn \<Rightarrow>
     downstreamConn \<times> failure option" where
  "replayMessage U servicePrefix net ch msg dc =
     (if \<not> messageSupportsHistory msg then (dc, None)
      else case ch of
        None \<Rightarrow> forwardHistory dc net msg
      | Some c \<Rightarrow>
          if Detached c then
            (case detachedMessageNeedsRelay U net c msg of
               Inl e \<Rightarrow> (dc, Some e)
             | Inr needs \<Rightarrow>
                 if needs then relayDetachedMessage U servicePrefix dc net msg else (dc, None))
          else forwardHistory dc net msg)"

fun replayMessages ::
  "unicode \<Rightarrow> prefix \<Rightarrow> network \<Rightarrow> Channel option \<Rightarrow> message list \<Rightarrow> downstreamConn \<Rightarrow>
     downstreamConn \<times> failure option" where
  "replayMessages U servicePrefix net ch [] dc = (dc, None)"
| "replayMessages U servicePrefix net ch (msg # rest) dc =
     andThen (replayMessage U servicePrefix net ch msg dc)
       (replayMessages U servicePrefix net ch rest)"

definition batchStart :: "network \<Rightarrow> string \<Rightarrow> downstreamConn \<Rightarrow> downstreamConn \<times> failure option" where
  "batchStart net target dc =
     (if dc_caps dc ''batch'' then
        (case marshalEntity dc net target of
           Inl e \<Rightarrow> (dc, Some e)
         | Inr name \<Rightarrow>
             SendMessage dc \<lparr>Tags = [], Prefix = Some (srv_prefix dc), Command = ''BATCH'',
                             Params = [''+history'', ''chathistory'', name]\<rparr>)
      else (dc, None))"

definition batchEnd :: "downstreamConn \<Rightarrow> downstreamConn \<times> failure option" where
  "batchEnd dc =
     (if dc_caps dc ''batch'' then
        SendMessage dc \<lparr>Tags = [], Prefix = Some (srv_prefix dc), Command = ''BATCH'',
                        Params = [''-history'']\<rparr>
      else (dc, None))"

text \<open>What \<^verbatim>\<open>sendTargetBacklog\<close> does once the history is loaded.\<close>

definition replayHistory ::
  "unicode \<Rightarrow> prefix \<Rightarrow> network \<Rightarrow> string \<Rightarrow> message list \<Rightarrow> downstreamConn \<Rightarrow>
     downstreamConn \<times> failure option" where
  "replayHistory U servicePrefix net target history dc =
     andThen (batchStart net target dc) (\<lambda>dc.
       andThen (replayMessages U servicePrefix net (Value (channels net) target) history dc)
         batchEnd)"

definition sendTargetBacklog ::
  "'st msgStoreOps \<Rightarrow> unicode \<Rightarrow> prefix \<Rightarrow> 'st option \<Rightarrow> downstreamConn \<Rightarrow> network \<Rightarrow>
     string \<Rightarrow> string \<Rightarrow> downstreamConn \<times> failure option" where
  "sendTargetBacklog ops U servicePrefix store dc net target msgID =
     (case store of
        None \<Rightarrow> (dc, None)
      | Some st \<Rightarrow>
          if dc_caps dc ''draft/chathistory'' then (dc, None)
          else
            let limit = 4000; targetCM = net_casemap net target
            in case opLoadLatestID ops st (ID net) targetCM msgID limit of
                 None \<Rightarrow> (dc, None)
               | Some history \<Rightarrow> replayHistory U servicePrefix net target history dc)"


definition welcomeTarget ::
  "'st msgStoreOps \<Rightarrow> unicode \<Rightarrow> prefix \<Rightarrow> 'st \<Rightarrow> string \<Rightarrow> network \<times> downstreamConn \<Rightarrow>
     (network \<times> downstreamConn) \<times> failure option" where
  "welcomeTarget ops U servicePrefix st target nd =
     (case nd of (net, dc) \<Rightarrow>
        let lastDelivered = LoadID (delivered net) target (clientName dc) in
        if lastDelivered = '''' then ((net, dc), None)
        else
          case sendTargetBacklog ops U servicePrefix (Some st) dc net target lastDelivered of
            (dc, Some e) \<Rightarrow> ((net, dc), Some e)
          | (dc, None) \<Rightarrow>
              let targetCM = net_casemap net target in
              (case opLastMsgID ops st (ID net) targetCM of
                 None \<Rightarrow> ((net, dc), None)
               | Some lastID \<Rightarrow>
                   ((net\<lparr>delivered := StoreID (delivered net) target (clientName dc) lastID\<rparr>,
                     dc), None)))"

fun welcomeTargets ::
  "'st msgStoreOps \<Rightarrow> unicode \<Rightarrow> prefix \<Rightarrow> 'st \<Rightarrow> string list \<Rightarrow> network \<times> downstreamConn \<Rightarrow>
     (network \<times> downstreamConn) \<times> failure option" where
  "welcomeTargets ops U servicePrefix st [] nd = (nd, None)"
| "welcomeTargets ops U servicePrefix st (target # rest) nd =
     andThen (welcomeTarget ops U servicePrefix st target nd)
       (welcomeTargets ops U servicePrefix st rest)"


subsection \<open>What a replay queues\<close>

text \<open>
  \<open>sent P k dc r\<close>: the call that ended as \<open>r\<close> changed the connection \<open>dc\<close> only by
  queueing messages, each of which satisfies \<open>P\<close>, and at most \<open>k\<close> of them are not
  BATCH frames.
\<close>

definition sent ::
  "(message \<Rightarrow> bool) \<Rightarrow> nat \<Rightarrow> downstreamConn \<Rightarrow> downstreamConn \<times> failure option \<Rightarrow> bool" where
  "sent P k dc r \<longleftrightarrow>
     (\<exists>new. fst r = dc\<lparr>dc_outgoing := dc_outgoing dc @ new\<rparr> \<and> list_all P new
        \<and> length (filter (\<lambda>x. Command x \<noteq> ''BATCH'') new) \<le> k)"

lemma sent_same: "sent P k dc (dc, r)"
  unfolding sent_def by (intro exI [of _ "[]"]) simp







lemma sent_fail: "sent P k dc (dc, Some e)"
  by (rule sent_same)



















section \<open>Producing an upstream message (upstream.go)\<close>

text \<open>
  upstream.go names its network by the pointer \<open>uc.network\<close>; the model names it by its
  ID and reads it from the user's list (an upstream connection belongs to a network of
  the user). In this revision of upstream.go \<open>uc.network.channels\<close> is a plain Go map
  from the name of a channel, as it was stored, to its record, and
  \<open>uc.network.channels[target]\<close> finds a record only under that very name. The model
  keeps the records in the name-indexed map of downstream.go; the plain map is that map
  read by the original keys of its entries.
\<close>

definition channelRecord :: "network \<Rightarrow> string \<Rightarrow> Channel option" where
  "channelRecord net name =
     (case find (\<lambda>entry. originalKey entry = name) (map snd (innerMap (channels net))) of
        None \<Rightarrow> None
      | Some entry \<Rightarrow> Some (entryValue entry))"

text \<open>\<^verbatim>\<open>network.forEachDownstream\<close> (user.go): the downstream connections bound to the
  network, in the order of \<open>user.downstreamConns\<close>; the loop ends where \<open>f\<close> fails.\<close>

fun forEachDownstream ::
  "network \<Rightarrow> (downstreamConn \<Rightarrow> downstreamConn \<times> failure option) \<Rightarrow> downstreamConn list \<Rightarrow>
     downstreamConn list \<times> failure option" where
  "forEachDownstream net f [] = ([], None)"
| "forEachDownstream net f (dc # dcs) =
     (if dc_network dc \<noteq> Some (ID net) then
        (case forEachDownstream net f dcs of (dcs', r) \<Rightarrow> (dc # dcs', r))
      else
        (case f dc of
           (dc', Some e) \<Rightarrow> (dc' # dcs, Some e)
         | (dc', None) \<Rightarrow> (case forEachDownstream net f dcs of (dcs', r) \<Rightarrow> (dc' # dcs', r))))"

text \<open>The \<open>clients\<close> map of a new \<^verbatim>\<open>networkHistory\<close> in \<^verbatim>\<open>appendLog\<close>.\<close>

definition newHistoryClients ::
  "('st, 'x) user_scheme \<Rightarrow> network \<Rightarrow> bool \<Rightarrow> string \<Rightarrow> (string \<rightharpoonup> string)" where
  "newHistoryClients u net detached lastID =
     (let clients = fold (\<lambda>client m. m(client \<mapsto> lastID)) (offlineClients net) Map.empty
      in if detached
         then fold (\<lambda>dc m. m(clientName dc \<mapsto> lastID))
                (filter (\<lambda>dc. dc_network dc = Some (ID net)) (downstreamConns u)) clients
         else clients)"

definition storeAppend ::
  "'st msgStoreOps \<Rightarrow> 'st \<Rightarrow> ('st, 'x) user_scheme \<Rightarrow> int \<Rightarrow> string \<Rightarrow> message \<Rightarrow>
     string \<times> ('st, 'x) user_scheme" where
  "storeAppend ops st u netID entity msg =
     (case opAppend ops st netID entity msg of
        (st', None) \<Rightarrow> ('''', u\<lparr>msgStore := Some st'\<rparr>)
      | (st', Some msgID) \<Rightarrow> (msgID, u\<lparr>msgStore := Some st'\<rparr>))"

definition appendLog ::
  "'st msgStoreOps \<Rightarrow> ('st, 'x) user_scheme \<Rightarrow> int \<Rightarrow> string \<Rightarrow> message \<Rightarrow>
     string \<times> ('st, 'x) user_scheme" where
  "appendLog ops u netID entity msg =
     (case msgStore u of
        None \<Rightarrow> ('''', u)
      | Some st \<Rightarrow>
          (case getNetworkByID u netID of
             None \<Rightarrow> ('''', u)
           | Some net \<Rightarrow>
               let detached = (case channelRecord net entity of
                                 Some ch \<Rightarrow> Detached ch | None \<Rightarrow> False)
               in case map_of (net_history net) entity of
                    Some h \<Rightarrow> storeAppend ops st u netID entity msg
                  | None \<Rightarrow>
                      (case opLastMsgID ops st netID entity of
                         None \<Rightarrow> ('''', u)
                       | Some lastID \<Rightarrow>
                           storeAppend ops st
                             (u\<lparr>networks :=
                                 updateNetworkByID netID
                                   (\<lambda>n. n\<lparr>net_history :=
                                            AList.update entity
                                              (newHistoryClients u net detached lastID)
                                              (net_history n)\<rparr>)
                                   (networks u)\<rparr>)
                             netID entity msg)))"




lemma storeAppend_keeps:
  "downstreamConns (snd (storeAppend ops st u netID entity msg)) = downstreamConns u"
  "networks (snd (storeAppend ops st u netID entity msg)) = networks u"
  by (simp_all add: storeAppend_def split: prod.splits option.splits)






text \<open>A record that \<^verbatim>\<open>produce\<close> finds under the name of the channel is the record that
  downstream.go finds through the name-indexed map.\<close>

lemma channelRecord_Value:
  assumes "keyed (channels net)" and "channelRecord net target = Some ch"
  shows "Value (channels net) target = Some ch"
proof -
  from assms(2) obtain entry where
    f: "find (\<lambda>entry. originalKey entry = target) (map snd (innerMap (channels net))) = Some entry"
    and v: "entryValue entry = ch"
    by (auto simp: channelRecord_def split: option.splits)
  from f have o: "originalKey entry = target" and "entry \<in> set (map snd (innerMap (channels net)))"
    by (auto simp: find_Some_iff)
  then obtain k where k: "(k, entry) \<in> set (innerMap (channels net))" by auto
  with assms(1) have "k = casemap (channels net) target"
    by (auto simp: keyed_def list_all_iff o)
  moreover from assms(1) k have "map_of (innerMap (channels net)) k = Some entry"
    by (simp add: keyed_def)
  ultimately show ?thesis by (simp add: Value_def v)
qed







definition tickID :: "int \<Rightarrow> string \<Rightarrow> nat \<Rightarrow> string" where
  "tickID netID entity n = entity @ '':'' @ replicate n CHR ''i''"





subsection \<open>The replay on welcome\<close>


lemma latest_set: "set (latest limit xs) \<subseteq> set xs"
  by (simp add: latest_def set_drop_subset)

lemma logLoadLatestID_Some:
  assumes "msgID \<in> set (map fst (lg (netID, entity)))"
  shows "logLoadLatestID lg netID entity msgID limit
           = Some (map snd (latest limit (afterID msgID (lg (netID, entity)))))"
  using assms by (simp add: logLoadLatestID_def)

lemma logLastMsgID_Some:
  assumes "msgID \<in> set (map fst (lg (netID, entity)))"
  shows "logLastMsgID lg netID entity = Some (fst (last (lg (netID, entity))))"
  using assms by (cases "lg (netID, entity)") (simp_all add: logLastMsgID_def)


lemma sent_fst: "sent P k dc r \<Longrightarrow> \<exists>new. fst r = dc\<lparr>dc_outgoing := dc_outgoing dc @ new\<rparr>"
  unfolding sent_def by blast




lemma welcomeTargets_step:
  "welcomeTargets ops U sp st (target # rest) nd =
     (case welcomeTarget ops U sp st target nd of
        (nd1, None) \<Rightarrow> welcomeTargets ops U sp st rest nd1
      | (nd1, Some e) \<Rightarrow> (nd1, Some e))"
  by (simp add: andThen_def split: prod.splits option.splits)













subsection \<open>What a replay forwards\<close>



































section \<open>Handling NICK from upstream (upstream.go)\<close>

text \<open>
  \<^verbatim>\<open>upstreamConn.handleMessage\<close> returns an error or nil; a panic or a loop that never
  ends is a failure.
\<close>

datatype handled = Handled | ReturnedError string | Failed failure

text \<open>A write through \<open>uc\<close>, the connection of the network with the given ID.\<close>

definition setConn ::
  "int \<Rightarrow> (upstreamConn \<Rightarrow> upstreamConn) \<Rightarrow> ('st, 'x) user_scheme \<Rightarrow> ('st, 'x) user_scheme" where
  "setConn netID f u =
     u\<lparr>networks := updateNetworkByID netID (\<lambda>n. n\<lparr>conn := map_option f (conn n)\<rparr>) (networks u)\<rparr>"

text \<open>
  The loop over \<open>uc.channels\<close> in the NICK case: where the old nick is a member, its
  entry is deleted, the memberships are stored under the new nick, and the message is
  logged for the channel. The loop goes over the channels in the order of the list, which
  stands for the order of Go's iteration, and returns the channels as it leaves them.
\<close>

definition nickChange :: "string \<Rightarrow> string \<Rightarrow> upstreamChannel \<Rightarrow> upstreamChannel" where
  "nickChange old new ch =
     (case map_of (Members ch) old of
        None \<Rightarrow> ch
      | Some memberships \<Rightarrow>
          ch\<lparr>Members := AList.update new memberships (AList.delete old (Members ch))\<rparr>)"

fun nickChannels ::
  "'st msgStoreOps \<Rightarrow> int \<Rightarrow> message \<Rightarrow> string \<Rightarrow> string \<Rightarrow> (string \<times> upstreamChannel) list \<Rightarrow>
     ('st, 'x) user_scheme \<Rightarrow> (string \<times> upstreamChannel) list \<times> ('st, 'x) user_scheme" where
  "nickChannels ops netID msg old new [] u = ([], u)"
| "nickChannels ops netID msg old new ((name, ch) # rest) u =
     (case map_of (Members ch) old of
        None \<Rightarrow>
          (case nickChannels ops netID msg old new rest u of
             (chs, u') \<Rightarrow> ((name, ch) # chs, u'))
      | Some memberships \<Rightarrow>
          (case nickChannels ops netID msg old new rest
                  (snd (appendLog ops u netID (uch_Name ch) msg)) of
             (chs, u') \<Rightarrow> ((name, nickChange old new ch) # chs, u')))"

text \<open>\<^verbatim>\<open>downstreamConn.updateNick\<close> (downstream.go), for a connection bound to \<open>net\<close>.\<close>

definition updateNick :: "network \<Rightarrow> downstreamConn \<Rightarrow> downstreamConn \<times> failure option" where
  "updateNick net dc =
     (case (if dc_network dc = None then None else conn net) of
        None \<Rightarrow> (dc, None)
      | Some uc \<Rightarrow>
          if uc_nick uc \<noteq> dc_nick dc then
            andThen
              (SendMessage dc \<lparr>Tags = [], Prefix = Some (dc_prefix dc), Command = ''NICK'',
                               Params = [uc_nick uc]\<rparr>)
              (\<lambda>dc. (dc\<lparr>dc_nick := uc_nick uc, dc_nickCM := casemapASCII (uc_nick uc)\<rparr>, None))
          else (dc, None))"

definition forwardTo :: "network \<Rightarrow> message \<Rightarrow> downstreamConn \<Rightarrow> downstreamConn \<times> failure option" where
  "forwardTo net msg dc =
     (case marshalMessage dc msg net of
        Inl e \<Rightarrow> (dc, Some e)
      | Inr m \<Rightarrow> SendMessage dc m)"

text \<open>
  The head of \<^verbatim>\<open>upstreamConn.handleMessage\<close>, before the switch on the command. It
  reads the tags \<open>label\<close> and \<open>batch\<close>; a \<open>batch\<close> tag that names no batch of
  \<open>uc.batches\<close> is an error, and so is a label that \<^verbatim>\<open>fmt.Sscanf\<close> does not read as
  \<open>sd-%d-%d\<close>. It gives the ID of the downstream connection named by the label, 0
  without a label, and the message, with the time of arrival as its \<open>time\<close> tag when
  it came without one. \<^verbatim>\<open>msg.GetTag\<close> is the lookup in \<open>msg.Tags\<close>. \<^verbatim>\<open>fmt.Sscanf\<close>
  and the clock are outside the repository: \<open>scanLabel\<close> gives the two numbers of a
  label or \<open>None\<close> for an error or fewer than two numbers, \<open>now\<close> is the formatted
  time.
\<close>

definition handleMessage_head ::
  "(string \<Rightarrow> (nat \<times> nat) option) \<Rightarrow> string \<Rightarrow> upstreamConn \<Rightarrow> message \<Rightarrow>
     string + nat \<times> message" where
  "handleMessage_head scanLabel now uc msg =
     (let label = (case map_of (Tags msg) ''label'' of Some l \<Rightarrow> l | None \<Rightarrow> '''') in
      case (case map_of (Tags msg) ''batch'' of
              None \<Rightarrow> Inr label
            | Some batchName \<Rightarrow>
                (case map_of (uc_batches uc) batchName of
                   None \<Rightarrow> Inl ''unexpected batch reference: batch was not defined''
                 | Some b \<Rightarrow> Inr (if label = '''' then batch_Label b else label))) of
        Inl e \<Rightarrow> Inl e
      | Inr label \<Rightarrow>
          (case (if label \<noteq> '''' then
                   (case scanLabel label of
                      None \<Rightarrow>
                        Inl ''unexpected message label: invalid downstream reference''
                    | Some (dsID, labelOffset) \<Rightarrow> Inr dsID)
                 else Inr 0) of
             Inl e \<Rightarrow> Inl e
           | Inr dsID \<Rightarrow>
               Inr (dsID,
                    if map_of (Tags msg) ''time'' = None
                    then msg\<lparr>Tags := AList.update ''time'' now (Tags msg)\<rparr> else msg)))"

text \<open>
  The NICK case of the switch, for the connection of the network \<open>netID\<close>.
  \<^verbatim>\<open>parseMessageParams\<close> fails on a message without parameters.
\<close>

definition caseNICK ::
  "'st msgStoreOps \<Rightarrow> ('st, 'x) user_scheme \<Rightarrow> int \<Rightarrow> message \<Rightarrow>
     ('st, 'x) user_scheme \<times> handled" where
  "caseNICK ops u netID msg =
     (case Prefix msg of
        None \<Rightarrow> (u, ReturnedError ''expected a prefix'')
      | Some pfx \<Rightarrow>
          (case Params msg of
             [] \<Rightarrow> (u, ReturnedError ''Not enough parameters'')
           | newNick # ps \<Rightarrow>
               (case getNetworkByID u netID of
                  None \<Rightarrow> (u, Failed NilDereference)
                | Some net \<Rightarrow>
                    (case conn net of
                       None \<Rightarrow> (u, Failed NilDereference)
                     | Some uc \<Rightarrow>
                         let me = (Name pfx = uc_nick uc);
                             u = (if me then setConn netID (\<lambda>c. c\<lparr>uc_nick := newNick\<rparr>) u
                                  else u)
                         in case nickChannels ops netID msg (Name pfx) newNick
                                   (uc_channels uc) u of
                              (chs, u) \<Rightarrow>
                                let u = setConn netID (\<lambda>c. c\<lparr>uc_channels := chs\<rparr>) u in
                                (case getNetworkByID u netID of
                                   None \<Rightarrow> (u, Failed NilDereference)
                                 | Some net \<Rightarrow>
                                     (case forEachDownstream net
                                             (if \<not> me then forwardTo net msg
                                              else updateNick net)
                                             (downstreamConns u) of
                                        (dcs, None) \<Rightarrow> (u\<lparr>downstreamConns := dcs\<rparr>, Handled)
                                      | (dcs, Some e) \<Rightarrow>
                                          (u\<lparr>downstreamConns := dcs\<rparr>, Failed e)))))))"

text \<open>\<^verbatim>\<open>upstreamConn.handleMessage\<close> on a NICK message: the head, then the NICK case on
  the message as the head leaves it.\<close>

definition handleNICK ::
  "(string \<Rightarrow> (nat \<times> nat) option) \<Rightarrow> string \<Rightarrow> 'st msgStoreOps \<Rightarrow> ('st, 'x) user_scheme \<Rightarrow>
     int \<Rightarrow> message \<Rightarrow> ('st, 'x) user_scheme \<times> handled" where
  "handleNICK scanLabel now ops u netID msg =
     (case getNetworkByID u netID of
        None \<Rightarrow> (u, Failed NilDereference)
      | Some net \<Rightarrow>
          (case conn net of
             None \<Rightarrow> (u, Failed NilDereference)
           | Some uc \<Rightarrow>
               (case handleMessage_head scanLabel now uc msg of
                  Inl e \<Rightarrow> (u, ReturnedError e)
                | Inr (dsID, msg') \<Rightarrow> caseNICK ops u netID msg')))"

subsection \<open>The state after a NICK\<close>

lemma find_updateNetworkByID_same:
  assumes "find (\<lambda>net. ID net = i) nets = Some net" and "\<And>n. ID (f n) = ID n"
  shows "find (\<lambda>net. ID net = i) (updateNetworkByID i f nets) = Some (f net)"
  using assms by (induction nets) (auto split: if_splits)

lemma getNetworkByID_setConn:
  assumes "getNetworkByID u netID = Some net"
  shows "getNetworkByID (setConn netID f u) netID = Some (net\<lparr>conn := map_option f (conn net)\<rparr>)"
  using find_updateNetworkByID_same [of netID "networks u" net
      "\<lambda>n. n\<lparr>conn := map_option f (conn n)\<rparr>"] assms
  by (simp add: getNetworkByID_def setConn_def)

lemma find_updateNetworkByID_conn:
  assumes "\<And>n. conn (f n) = conn n" and "\<And>n. ID (f n) = ID n"
    and "find (\<lambda>net. ID net = i) nets = Some net"
  shows "\<exists>net'. find (\<lambda>net. ID net = i) (updateNetworkByID j f nets) = Some net'
           \<and> conn net' = conn net"
  using assms by (induction nets) (auto split: if_splits)

lemma appendLog_conn:
  assumes "getNetworkByID u i = Some net"
  shows "\<exists>net'. getNetworkByID (snd (appendLog ops u netID entity msg)) i = Some net'
           \<and> conn net' = conn net"
proof -
  have upd: "\<exists>net'. find (\<lambda>net. ID net = i)
        (updateNetworkByID netID (\<lambda>n. n\<lparr>net_history := g n\<rparr>) (networks u)) = Some net'
           \<and> conn net' = conn net" for g
    using assms by (intro find_updateNetworkByID_conn) (simp_all add: getNetworkByID_def)
  from assms upd show ?thesis
    by (simp add: appendLog_def Let_def getNetworkByID_def storeAppend_keeps
        split: option.splits)
qed

lemma nickChannels_fst:
  "fst (nickChannels ops netID msg old new chs u)
     = map (\<lambda>(name, ch). (name, nickChange old new ch)) chs"
  by (induction ops netID msg old new chs u rule: nickChannels.induct)
    (auto simp: nickChange_def split: option.splits prod.splits)

lemma nickChannels_conn:
  "getNetworkByID u i = Some net \<Longrightarrow>
   \<exists>net'. getNetworkByID (snd (nickChannels ops netID msg old new chs u)) i = Some net'
     \<and> conn net' = conn net"
proof (induction ops netID msg old new chs u arbitrary: net rule: nickChannels.induct)
  case (1 ops netID msg old new u)
  then show ?case by simp
next
  case (2 ops netID msg old new name ch rest u)
  show ?case
  proof (cases "map_of (Members ch) old")
    case None
    from "2.IH"(1) [OF None "2.prems"] None show ?thesis
      by (cases "nickChannels ops netID msg old new rest u") simp
  next
    case (Some ms)
    from appendLog_conn [OF "2.prems", of ops netID "uch_Name ch" msg]
    obtain net1 where n1:
      "getNetworkByID (snd (appendLog ops u netID (uch_Name ch) msg)) i = Some net1"
      "conn net1 = conn net" by blast
    from "2.IH"(2) [OF Some n1(1)] n1(2) Some show ?thesis
      by (cases "nickChannels ops netID msg old new rest
            (snd (appendLog ops u netID (uch_Name ch) msg))") simp
  qed
qed

lemma caseNICK_conn:
  assumes "getNetworkByID u netID = Some net" and "conn net = Some uc"
    and "Prefix msg = Some pfx" and "Params msg = newNick # ps"
  shows "\<exists>net'. getNetworkByID (fst (caseNICK ops u netID msg)) netID = Some net'
     \<and> conn net' = Some (uc\<lparr>uc_nick := (if Name pfx = uc_nick uc then newNick else uc_nick uc),
                            uc_channels := map (\<lambda>(name, ch). (name, nickChange (Name pfx) newNick ch))
                                             (uc_channels uc)\<rparr>)"
proof -
  define me where "me = (Name pfx = uc_nick uc)"
  define u1 where "u1 = (if me then setConn netID (\<lambda>c. c\<lparr>uc_nick := newNick\<rparr>) u else u)"
  define uc1 where "uc1 = uc\<lparr>uc_nick := (if me then newNick else uc_nick uc)\<rparr>"
  have g1: "\<exists>net1. getNetworkByID u1 netID = Some net1 \<and> conn net1 = Some uc1"
  proof (cases me)
    case True
    with getNetworkByID_setConn [OF assms(1), of "\<lambda>c. c\<lparr>uc_nick := newNick\<rparr>"] assms(2)
    show ?thesis by (simp add: u1_def uc1_def)
  next
    case False
    with assms(1,2) show ?thesis by (simp add: u1_def uc1_def)
  qed
  then obtain net1 where n1: "getNetworkByID u1 netID = Some net1" "conn net1 = Some uc1"
    by blast
  define r where "r = nickChannels ops netID msg (Name pfx) newNick (uc_channels uc) u1"
  define chs where "chs = map (\<lambda>(name, ch). (name, nickChange (Name pfx) newNick ch))
      (uc_channels uc)"
  have rf: "fst r = chs" by (simp add: r_def chs_def nickChannels_fst)
  from nickChannels_conn [OF n1(1), of ops netID msg "Name pfx" newNick "uc_channels uc"] n1(2)
  obtain net2 where n2: "getNetworkByID (snd r) netID = Some net2" "conn net2 = Some uc1"
    by (auto simp: r_def)
  define u3 where "u3 = setConn netID (\<lambda>c. c\<lparr>uc_channels := chs\<rparr>) (snd r)"
  from getNetworkByID_setConn [OF n2(1), of "\<lambda>c. c\<lparr>uc_channels := chs\<rparr>"] n2(2)
  have n3: "getNetworkByID u3 netID = Some (net2\<lparr>conn := Some (uc1\<lparr>uc_channels := chs\<rparr>)\<rparr>)"
    by (simp add: u3_def)
  have nets: "networks (fst (caseNICK ops u netID msg)) = networks u3"
    unfolding caseNICK_def
    using assms n3 rf
    by (cases r)
      (simp add: Let_def me_def [symmetric] u1_def [symmetric] r_def [symmetric] u3_def
        split: prod.splits option.splits)
  have "getNetworkByID (fst (caseNICK ops u netID msg)) netID = getNetworkByID u3 netID"
    by (simp add: getNetworkByID_def nets)
  with n3 show ?thesis
    by (simp add: uc1_def chs_def me_def)
qed

lemma nickChange_member:
  assumes "map_of (Members ch) old = Some ms"
  shows "map_of (Members (nickChange old new ch)) new = Some ms"
    and "new \<noteq> old \<Longrightarrow> map_of (Members (nickChange old new ch)) old = None"
    and "new = old \<Longrightarrow> map_of (Members (nickChange old new ch)) old = Some ms"
    and "k \<noteq> new \<Longrightarrow> k \<noteq> old \<Longrightarrow>
         map_of (Members (nickChange old new ch)) k = map_of (Members ch) k"
  using assms by (simp_all add: nickChange_def update_conv' delete_conv')

lemma nickChange_other:
  "map_of (Members ch) old = None \<Longrightarrow> nickChange old new ch = ch"
  by (simp add: nickChange_def)

lemma map_of_nickChannels:
  "map_of (map (\<lambda>(name, ch). (name, nickChange old new ch)) chs) x
     = map_option (nickChange old new) (map_of chs x)"
  by (induction chs) auto

lemma caseNICK_no_error:
  assumes "getNetworkByID u netID = Some net" and "conn net = Some uc"
    and "Prefix msg = Some pfx" and "Params msg = newNick # ps"
  shows "snd (caseNICK ops u netID msg) \<noteq> ReturnedError e"
  using assms
  by (simp add: caseNICK_def Let_def split: prod.splits option.splits)

lemma handleMessage_head_keeps:
  assumes "handleMessage_head scanLabel now uc msg = Inr (dsID, msg')"
  shows "Prefix msg' = Prefix msg" and "Params msg' = Params msg"
    and "Command msg' = Command msg"
  using assms
  by (auto simp: handleMessage_head_def Let_def
      split: option.splits sum.splits if_splits prod.splits)

text \<open>A message that the head rejects leaves the state as it is.\<close>

lemma handleNICK_rejected:
  assumes "getNetworkByID u netID = Some net" and "conn net = Some uc"
    and "handleMessage_head scanLabel now uc msg = Inl e"
  shows "handleNICK scanLabel now ops u netID msg = (u, ReturnedError e)"
  using assms by (simp add: handleNICK_def)

lemma handleMessage_head_batch:
  assumes "map_of (Tags msg) ''batch'' = Some batchName"
    and "map_of (uc_batches uc) batchName = None"
  shows "\<exists>e. handleMessage_head scanLabel now uc msg = Inl e"
  using assms by (simp add: handleMessage_head_def Let_def)

text \<open>
  Claim C4. Let \<^verbatim>\<open>handleMessage\<close> get a NICK message from the prefix \<open>P\<close> to the new
  nick \<open>N\<close>, a nick other than the name of \<open>P\<close>, on the connection \<open>uc\<close> of a network, and
  let the head of \<^verbatim>\<open>handleMessage\<close> accept the message. Then in every channel \<open>x\<close> of
  \<open>uc\<close> where the name of \<open>P\<close> was a member with the memberships \<open>ms\<close>, the name of \<open>P\<close>
  is no longer a member and \<open>N\<close> is a member with the memberships \<open>ms\<close>; and if the
  name of \<open>P\<close> was the nick of \<open>uc\<close>, the nick of \<open>uc\<close> is \<open>N\<close> afterwards. The handler
  does not return an error.
\<close>

theorem C4_nick_renames_member:
  assumes "getNetworkByID u netID = Some net" and "conn net = Some uc"
    and "handleMessage_head scanLabel now uc msg = Inr (dsID, msg')"
    and "Prefix msg = Some P" and "Params msg = N # ps"
    and "N \<noteq> Name P"
    and "map_of (uc_channels uc) x = Some ch"
    and "map_of (Members ch) (Name P) = Some ms"
  shows "\<exists>net' uc' ch'.
           getNetworkByID (fst (handleNICK scanLabel now ops u netID msg)) netID = Some net'
         \<and> conn net' = Some uc'
         \<and> map_of (uc_channels uc') x = Some ch'
         \<and> map_of (Members ch') (Name P) = None
         \<and> map_of (Members ch') N = Some ms
         \<and> (Name P = uc_nick uc \<longrightarrow> uc_nick uc' = N)
         \<and> (\<forall>e. snd (handleNICK scanLabel now ops u netID msg) \<noteq> ReturnedError e)"
proof -
  let ?uc = "uc\<lparr>uc_nick := (if Name P = uc_nick uc then N else uc_nick uc),
                 uc_channels := map (\<lambda>(name, ch). (name, nickChange (Name P) N ch))
                                  (uc_channels uc)\<rparr>"
  let ?ch = "nickChange (Name P) N ch"
  have p: "Prefix msg' = Some P" "Params msg' = N # ps"
    using handleMessage_head_keeps [OF assms(3)] assms(4,5) by simp_all
  have h: "handleNICK scanLabel now ops u netID msg = caseNICK ops u netID msg'"
    by (simp add: handleNICK_def assms(1-3))
  from caseNICK_conn [OF assms(1,2) p, of ops]
  obtain net' where n: "getNetworkByID (fst (caseNICK ops u netID msg')) netID = Some net'"
    "conn net' = Some ?uc" by blast
  have c: "map_of (uc_channels ?uc) x = Some ?ch"
    by (simp add: map_of_nickChannels assms(7))
  have m: "map_of (Members ?ch) N = Some ms"
    by (rule nickChange_member(1) [OF assms(8)])
  have d: "map_of (Members ?ch) (Name P) = None"
    by (rule nickChange_member(2) [OF assms(8) assms(6)])
  have k: "Name P = uc_nick uc \<longrightarrow> uc_nick ?uc = N" by simp
  have r: "snd (caseNICK ops u netID msg') \<noteq> ReturnedError e" for e
    by (rule caseNICK_no_error [OF assms(1,2) p])
  from n c m d k r show ?thesis unfolding h by blast
qed

text \<open>
  The witness: \<open>alice\<close>, the nick of the connection, becomes \<open>bob\<close>; on \<open>#x\<close> \<open>carol\<close>
  has a voice and \<open>alice\<close> is an operator. The message comes without tags.
\<close>

text \<open>A reader of labels for the examples: two unsigned decimal numbers.\<close>

definition isDigit :: "char \<Rightarrow> bool" where
  "isDigit c \<longleftrightarrow> CHR ''0'' \<le> c \<and> c \<le> CHR ''9''"

definition readDecimal :: "string \<Rightarrow> nat" where
  "readDecimal ds = foldl (\<lambda>n c. 10 * n + (of_char c - 48)) 0 ds"

definition scanDecimalLabel :: "string \<Rightarrow> (nat \<times> nat) option" where
  "scanDecimalLabel s =
     (if take 3 s \<noteq> ''sd-'' then None
      else
        let a = takeWhile isDigit (drop 3 s);
            r = dropWhile isDigit (drop 3 s);
            b = takeWhile isDigit (drop 1 r)
        in if a = [] \<or> take 1 r \<noteq> ''-'' \<or> b = [] then None
           else Some (readDecimal a, readDecimal b))"

definition xChannel :: upstreamChannel where
  "xChannel = \<lparr>uch_Name = ''#x'',
     Members = [(''carol'', [\<lparr>Mode = CHR ''v'', PrefixChar = CHR ''+''\<rparr>]),
                (''alice'', [\<lparr>Mode = CHR ''o'', PrefixChar = CHR ''@''\<rparr>])],
     complete = True\<rparr>"

definition aliceConn :: upstreamConn where
  "aliceConn = \<lparr>uc_nick = ''alice'', uc_nickCM = ''alice'', uc_channels = [(''#x'', xChannel)],
     uc_caps = (\<lambda>c. False), uc_batches = [], registered = True,
     pendingLISTDownstreamSet = {},
     nextLabelID = 0, uc_outgoing = []\<rparr>"

definition aliceNetwork :: network where
  "aliceNetwork = libera\<lparr>Nick := ''alice'', conn := Some aliceConn\<rparr>"

definition aliceUser :: "logStore user" where
  "aliceUser = \<lparr>networks = [aliceNetwork], downstreamConns = [], pendingLISTs = [],
     msgStore = None\<rparr>"

definition nickTo :: "string \<Rightarrow> message" where
  "nickTo N = \<lparr>Tags = [], Prefix = Some \<lparr>Name = ''alice'', User = ''u'', Host = ''h''\<rparr>,
     Command = ''NICK'', Params = [N]\<rparr>"

lemma alice_facts:
  "getNetworkByID aliceUser 7 = Some aliceNetwork" "conn aliceNetwork = Some aliceConn"
  "Prefix (nickTo N) = Some \<lparr>Name = ''alice'', User = ''u'', Host = ''h''\<rparr>"
  "Params (nickTo N) = [N]"
  "map_of (uc_channels aliceConn) ''#x'' = Some xChannel"
  "map_of (Members xChannel) ''alice'' = Some [\<lparr>Mode = CHR ''o'', PrefixChar = CHR ''@''\<rparr>]"
  "uc_nick aliceConn = ''alice''"
  "handleMessage_head scanDecimalLabel ''t0'' aliceConn (nickTo N)
     = Inr (0, (nickTo N)\<lparr>Tags := [(''time'', ''t0'')]\<rparr>)"
  by (simp_all add: getNetworkByID_def aliceUser_def aliceNetwork_def libera_def aliceConn_def
      nickTo_def xChannel_def handleMessage_head_def)

theorem C4_nick_renames_member_witness:
  "\<exists>net' uc' ch'.
       getNetworkByID (fst (handleNICK scanDecimalLabel ''t0'' (logStoreOps tickID) aliceUser 7
                              (nickTo ''bob''))) 7
         = Some net'
     \<and> conn net' = Some uc'
     \<and> map_of (uc_channels uc') ''#x'' = Some ch'
     \<and> map_of (Members ch') ''alice'' = None
     \<and> map_of (Members ch') ''bob'' = Some [\<lparr>Mode = CHR ''o'', PrefixChar = CHR ''@''\<rparr>]
     \<and> uc_nick uc' = ''bob''"
proof -
  have d: "''bob'' \<noteq> Name \<lparr>Name = ''alice'', User = ''u'', Host = ''h''\<rparr>" by simp
  have m: "map_of (Members xChannel) (Name \<lparr>Name = ''alice'', User = ''u'', Host = ''h''\<rparr>)
      = Some [\<lparr>Mode = CHR ''o'', PrefixChar = CHR ''@''\<rparr>]"
    by (simp add: alice_facts(6))
  from C4_nick_renames_member [where u = aliceUser and netID = 7 and net = aliceNetwork
      and uc = aliceConn and msg = "nickTo ''bob''" and scanLabel = scanDecimalLabel
      and now = "''t0''" and dsID = 0 and msg' = "(nickTo ''bob'')\<lparr>Tags := [(''time'', ''t0'')]\<rparr>"
      and P = "\<lparr>Name = ''alice'', User = ''u'', Host = ''h''\<rparr>" and N = "''bob''" and ps = "[]"
      and x = "''#x''" and ch = xChannel
      and ms = "[\<lparr>Mode = CHR ''o'', PrefixChar = CHR ''@''\<rparr>]" and ops = "logStoreOps tickID",
      OF alice_facts(1,2,8,3,4) d alice_facts(5) m]
  have "\<exists>net' uc' ch'.
       getNetworkByID (fst (handleNICK scanDecimalLabel ''t0'' (logStoreOps tickID) aliceUser 7
                              (nickTo ''bob''))) 7
         = Some net'
     \<and> conn net' = Some uc'
     \<and> map_of (uc_channels uc') ''#x'' = Some ch'
     \<and> map_of (Members ch') ''alice'' = None
     \<and> map_of (Members ch') ''bob'' = Some [\<lparr>Mode = CHR ''o'', PrefixChar = CHR ''@''\<rparr>]
     \<and> uc_nick uc' = ''bob''
     \<and> (\<forall>e. snd (handleNICK scanDecimalLabel ''t0'' (logStoreOps tickID) aliceUser 7
                      (nickTo ''bob'')) \<noteq> ReturnedError e)"
    by (simp add: alice_facts(7))
  then show ?thesis by blast
qed

section \<open>LIST coordination (upstream.go)\<close>

text \<open>
  The numerics RPL_LISTEND, ERR_UNKNOWNCOMMAND and RPL_TRYAGAIN are constants of the IRC
  library. A downstream LIST is kept as a \<^verbatim>\<open>pendingLIST\<close> in \<open>user.pendingLISTs\<close>: the ID of the
  downstream connection and, per network ID, the LIST command still to be answered. The
  type and the field belong to the revision of user.go that upstream.go was written
  against; their fields are read off their uses in upstream.go and downstream.go. A value
  of \<open>pendingCommands\<close> is a pointer to a message, which \<^verbatim>\<open>SendMessageLabeled\<close> writes
  to; the model writes the message back into the map.
\<close>

definition RPL_LISTEND :: string where
  "RPL_LISTEND = ''323''"

definition ERR_UNKNOWNCOMMAND :: string where
  "ERR_UNKNOWNCOMMAND = ''421''"

definition RPL_TRYAGAIN :: string where
  "RPL_TRYAGAIN = ''263''"

text \<open>\<^verbatim>\<open>upstreamConn.SendMessage\<close>; \<open>uc_outgoing\<close> is the queue of the connection.\<close>

definition uc_SendMessage :: "upstreamConn \<Rightarrow> message \<Rightarrow> upstreamConn" where
  "uc_SendMessage uc msg =
     uc\<lparr>uc_outgoing := uc_outgoing uc @
          [if \<not> uc_caps uc ''message-tags'' then msg\<lparr>Tags := []\<rparr> else msg]\<rparr>"

text \<open>\<open>%d\<close> of \<^verbatim>\<open>fmt.Sprintf\<close> on an unsigned number.\<close>

fun decimal :: "nat \<Rightarrow> string" where
  "decimal n =
     (if n < 10 then [char_of (48 + n)]
      else decimal (n div 10) @ [char_of (48 + n mod 10)])"

declare decimal.simps [simp del]

text \<open>\<^verbatim>\<open>SendMessageLabeled\<close> returns the connection and the message as it leaves it;
  \<open>nextLabelID\<close> is a \<open>uint64\<close>.\<close>

definition SendMessageLabeled ::
  "upstreamConn \<Rightarrow> nat \<Rightarrow> message \<Rightarrow> upstreamConn \<times> message" where
  "SendMessageLabeled uc dsID msg =
     (if uc_caps uc ''labeled-response'' then
        let msg' = msg\<lparr>Tags := AList.update ''label''
                        (''sd-'' @ decimal dsID @ ''-'' @ decimal (nextLabelID uc))
                        (Tags msg)\<rparr>;
            uc' = uc\<lparr>nextLabelID := (nextLabelID uc + 1) mod 2 ^ 64\<rparr>
        in (uc_SendMessage uc' msg', msg')
      else (uc_SendMessage uc msg, msg))"

text \<open>The loop of \<^verbatim>\<open>trySendLIST\<close> over \<open>uc.user.pendingLISTs\<close>.\<close>

fun trySendLIST_loop ::
  "upstreamConn \<Rightarrow> int \<Rightarrow> nat \<Rightarrow> pendingLIST list \<Rightarrow> upstreamConn \<times> pendingLIST list" where
  "trySendLIST_loop uc netID d [] = (uc, [])"
| "trySendLIST_loop uc netID d (pl # pls) =
     (if downstreamID pl \<noteq> d then
        (case trySendLIST_loop uc netID d pls of (uc', pls') \<Rightarrow> (uc', pl # pls'))
      else
        (case map_of (pendingCommands pl) netID of
           None \<Rightarrow>
             (case trySendLIST_loop uc netID d pls of (uc', pls') \<Rightarrow> (uc', pl # pls'))
         | Some listCommand \<Rightarrow>
             (case SendMessageLabeled uc d listCommand of
                (uc', msg') \<Rightarrow>
                  (uc'\<lparr>pendingLISTDownstreamSet := insert d (pendingLISTDownstreamSet uc')\<rparr>,
                   pl\<lparr>pendingCommands := AList.update netID msg' (pendingCommands pl)\<rparr>
                     # pls))))"

text \<open>\<^verbatim>\<open>trySendLIST\<close> on the connection of the network \<open>netID\<close>.\<close>

definition trySendLIST :: "nat \<Rightarrow> int \<Rightarrow> ('st, 'x) user_scheme \<Rightarrow> ('st, 'x) user_scheme" where
  "trySendLIST d netID u =
     (case getNetworkByID u netID of
        None \<Rightarrow> u
      | Some net \<Rightarrow>
          (case conn net of
             None \<Rightarrow> u
           | Some uc \<Rightarrow>
               if d \<in> pendingLISTDownstreamSet uc then u
               else
                 (case trySendLIST_loop uc netID d (pendingLISTs u) of
                    (uc', pls') \<Rightarrow> (setConn netID (\<lambda>c. uc') u)\<lparr>pendingLISTs := pls'\<rparr>)))"

text \<open>\<^verbatim>\<open>user.forEachUpstream\<close> (user.go): the connections of the user's networks, in
  the order of \<open>user.networks\<close>; \<open>f\<close> gets the ID of the connection's network.\<close>

definition forEachUpstream ::
  "(int \<Rightarrow> ('st, 'x) user_scheme \<Rightarrow> ('st, 'x) user_scheme) \<Rightarrow> ('st, 'x) user_scheme \<Rightarrow>
     ('st, 'x) user_scheme" where
  "forEachUpstream f u =
     fold (\<lambda>net u. if conn net = None then u else f (ID net) u) (networks u) u"

text \<open>\<^verbatim>\<open>forEachDownstreamByID\<close>: with the ID 0, every downstream connection that
  \<^verbatim>\<open>network.forEachDownstream\<close> visits.\<close>

definition forEachDownstreamByID ::
  "network \<Rightarrow> nat \<Rightarrow> (downstreamConn \<Rightarrow> downstreamConn \<times> failure option) \<Rightarrow>
     downstreamConn list \<Rightarrow> downstreamConn list \<times> failure option" where
  "forEachDownstreamByID net ident f =
     forEachDownstream net (\<lambda>dc. if ident \<noteq> 0 \<and> ident \<noteq> dc_id dc then (dc, None) else f dc)"

text \<open>The RPL_LISTEND that \<^verbatim>\<open>endPendingLISTs\<close> makes up for a downstream connection.\<close>

definition listEnd :: "downstreamConn \<Rightarrow> message" where
  "listEnd dc = \<lparr>Tags = [], Prefix = Some (srv_prefix dc), Command = RPL_LISTEND,
     Params = [dc_nick dc, ''End of /LIST'']\<rparr>"

text \<open>
  The loop of \<^verbatim>\<open>endPendingLISTs\<close>. At index \<open>i\<close> the list \<open>user.pendingLISTs\<close> is
  \<open>kept @ pl # rest\<close> with \<open>kept\<close> of length \<open>i\<close>: \<open>kept\<close> has been visited and stays,
  \<open>pl\<close> is visited now. The command of the network is deleted from the map of \<open>pl\<close>;
  when the map is empty then, \<open>pl\<close> is cut out of the list and the downstream connection
  gets RPL_LISTEND. Unless \<open>all\<close> is set, the function leaves at the first pending LIST
  with a command of the network, after it has let every upstream connection try the
  next LIST of the downstream connection.
\<close>

fun endPendingLISTs_loop ::
  "bool \<Rightarrow> network \<Rightarrow> pendingLIST list \<Rightarrow> pendingLIST list \<Rightarrow> bool \<Rightarrow> ('st, 'x) user_scheme \<Rightarrow>
     (('st, 'x) user_scheme \<times> bool) \<times> failure option" where
  "endPendingLISTs_loop all net kept [] found u = ((u\<lparr>pendingLISTs := kept\<rparr>, found), None)"
| "endPendingLISTs_loop all net kept (pl # rest) found u =
     (case map_of (pendingCommands pl) (ID net) of
        None \<Rightarrow> endPendingLISTs_loop all net (kept @ [pl]) rest found u
      | Some listCommand \<Rightarrow>
          let pl' = pl\<lparr>pendingCommands := AList.delete (ID net) (pendingCommands pl)\<rparr>;
              kept' = (if pendingCommands pl' = [] then kept else kept @ [pl']);
              r = (if pendingCommands pl' = []
                   then forEachDownstreamByID net (downstreamID pl)
                          (\<lambda>dc. SendMessage dc (listEnd dc)) (downstreamConns u)
                   else (downstreamConns u, None))
          in case r of
               (dcs, Some e) \<Rightarrow>
                 ((u\<lparr>pendingLISTs := kept' @ rest, downstreamConns := dcs\<rparr>, found), Some e)
             | (dcs, None) \<Rightarrow>
                 if \<not> all then
                   ((forEachUpstream (trySendLIST (downstreamID pl))
                       (setConn (ID net)
                          (\<lambda>c. c\<lparr>pendingLISTDownstreamSet :=
                                    pendingLISTDownstreamSet c - {downstreamID pl}\<rparr>)
                          (u\<lparr>pendingLISTs := kept' @ rest, downstreamConns := dcs\<rparr>)),
                     True), None)
                 else endPendingLISTs_loop all net kept' rest True (u\<lparr>downstreamConns := dcs\<rparr>))"

text \<open>\<^verbatim>\<open>endPendingLISTs\<close> on the connection of the network \<open>netID\<close>.\<close>

definition endPendingLISTs ::
  "bool \<Rightarrow> int \<Rightarrow> ('st, 'x) user_scheme \<Rightarrow> (('st, 'x) user_scheme \<times> bool) \<times> failure option" where
  "endPendingLISTs all netID u =
     (case getNetworkByID u netID of
        None \<Rightarrow> ((u, False), Some NilDereference)
      | Some net \<Rightarrow> endPendingLISTs_loop all net [] (pendingLISTs u) False u)"

text \<open>
  The cases RPL_LISTEND and ERR_UNKNOWNCOMMAND, RPL_TRYAGAIN of the switch of
  \<^verbatim>\<open>upstreamConn.handleMessage\<close>; \<open>dsID\<close> is the \<open>downstreamID\<close> that the head of
  \<^verbatim>\<open>handleMessage\<close> reads from the label of the message, 0 without a label.
\<close>

definition caseLISTEND :: "('st, 'x) user_scheme \<Rightarrow> int \<Rightarrow> ('st, 'x) user_scheme \<times> handled" where
  "caseLISTEND u netID =
     (case endPendingLISTs False netID u of
        ((u', ok), Some e) \<Rightarrow> (u', Failed e)
      | ((u', ok), None) \<Rightarrow>
          if \<not> ok then (u', ReturnedError ''unexpected RPL_LISTEND: no matching pending LIST'')
          else (u', Handled))"

definition forwardNumeric ::
  "('st, 'x) user_scheme \<Rightarrow> int \<Rightarrow> nat \<Rightarrow> string \<Rightarrow> string \<Rightarrow> string \<Rightarrow>
     ('st, 'x) user_scheme \<times> handled" where
  "forwardNumeric u netID dsID numeric command reason =
     (case getNetworkByID u netID of
        None \<Rightarrow> (u, Failed NilDereference)
      | Some net \<Rightarrow>
          (case forEachDownstreamByID net dsID
                  (\<lambda>dc. SendMessage dc \<lparr>Tags = [], Prefix = Some (srv_prefix dc),
                                         Command = numeric,
                                         Params = [dc_nick dc, command, reason]\<rparr>)
                  (downstreamConns u) of
             (dcs, None) \<Rightarrow> (u\<lparr>downstreamConns := dcs\<rparr>, Handled)
           | (dcs, Some e) \<Rightarrow> (u\<lparr>downstreamConns := dcs\<rparr>, Failed e)))"

definition caseUnknownCommandOrTryAgain ::
  "('st, 'x) user_scheme \<Rightarrow> int \<Rightarrow> nat \<Rightarrow> message \<Rightarrow> ('st, 'x) user_scheme \<times> handled" where
  "caseUnknownCommandOrTryAgain u netID dsID msg =
     (case Params msg of
        p0 # command # reason # ps \<Rightarrow>
          if command = ''LIST'' then
            (case endPendingLISTs False netID u of
               ((u', ok), Some e) \<Rightarrow> (u', Failed e)
             | ((u', ok), None) \<Rightarrow>
                 if \<not> ok then
                   (u', ReturnedError ''unexpected response for LIST: no matching pending LIST'')
                 else forwardNumeric u' netID dsID (Command msg) command reason)
          else forwardNumeric u netID dsID (Command msg) command reason
      | _ \<Rightarrow> (u, ReturnedError ''Not enough parameters''))"


definition handleUnknownCommandOrTryAgain ::
  "(string \<Rightarrow> (nat \<times> nat) option) \<Rightarrow> string \<Rightarrow> ('st, 'x) user_scheme \<Rightarrow> int \<Rightarrow> message \<Rightarrow>
     ('st, 'x) user_scheme \<times> handled" where
  "handleUnknownCommandOrTryAgain scanLabel now u netID msg =
     (case getNetworkByID u netID of
        None \<Rightarrow> (u, Failed NilDereference)
      | Some net \<Rightarrow>
          (case conn net of
             None \<Rightarrow> (u, Failed NilDereference)
           | Some uc \<Rightarrow>
               (case handleMessage_head scanLabel now uc msg of
                  Inl e \<Rightarrow> (u, ReturnedError e)
                | Inr (dsID, msg') \<Rightarrow> caseUnknownCommandOrTryAgain u netID dsID msg')))"

subsection \<open>Which commands are pending, and what the downstream connections get\<close>

text \<open>The downstream connection of a pending LIST and the networks it waits for.\<close>

definition pendingKeys :: "pendingLIST \<Rightarrow> nat \<times> int list" where
  "pendingKeys pl = (downstreamID pl, map fst (pendingCommands pl))"

text \<open>The networks a pending LIST waits for once the network \<open>netID\<close> has answered.\<close>

definition remaining :: "int \<Rightarrow> pendingLIST \<Rightarrow> int list" where
  "remaining netID pl = filter (\<lambda>k. k \<noteq> netID) (map fst (pendingCommands pl))"

text \<open>The downstream connections that \<^verbatim>\<open>forEachDownstreamByID\<close> visits.\<close>

definition visited :: "int \<Rightarrow> nat \<Rightarrow> downstreamConn \<Rightarrow> bool" where
  "visited netID ident dc \<longleftrightarrow> dc_network dc = Some netID \<and> (ident = 0 \<or> dc_id dc = ident)"

definition queue :: "message \<Rightarrow> downstreamConn \<Rightarrow> downstreamConn" where
  "queue msg dc = dc\<lparr>dc_outgoing := dc_outgoing dc @ [msg]\<rparr>"

definition numericTo :: "downstreamConn \<Rightarrow> string \<Rightarrow> string \<Rightarrow> string \<Rightarrow> message" where
  "numericTo dc numeric command reason =
     \<lparr>Tags = [], Prefix = Some (srv_prefix dc), Command = numeric,
      Params = [dc_nick dc, command, reason]\<rparr>"

lemma forEachDownstream_returns:
  assumes "\<And>dc. snd (f dc) = None"
  shows "forEachDownstream net f dcs
     = (map (\<lambda>dc. if dc_network dc = Some (ID net) then fst (f dc) else dc) dcs, None)"
proof (induction dcs)
  case Nil
  show ?case by simp
next
  case (Cons dc dcs)
  obtain dc' where f: "f dc = (dc', None)" using assms [of dc] by (cases "f dc") simp
  show ?case by (simp add: Cons f)
qed

lemma SendMessage_plain:
  assumes "Tags msg = []" and "Command msg \<noteq> ''TAGMSG''" and "Command msg \<noteq> ''JOIN''"
  shows "SendMessage dc msg = (queue msg dc, None)"
proof -
  have "msg\<lparr>Tags := []\<rparr> = msg" using assms(1) by simp
  with assms show ?thesis
    by (simp add: SendMessage_def conn_SendMessage_def queue_def Let_def)
qed

lemma SendMessage_listEnd: "SendMessage dc (listEnd dc) = (queue (listEnd dc) dc, None)"
  by (rule SendMessage_plain) (simp_all add: listEnd_def RPL_LISTEND_def)

lemma forEachDownstreamByID_listEnd:
  "forEachDownstreamByID net ident (\<lambda>dc. SendMessage dc (listEnd dc)) dcs
     = (map (\<lambda>dc. if visited (ID net) ident dc then queue (listEnd dc) dc else dc) dcs, None)"
proof -
  let ?f = "\<lambda>dc. if ident \<noteq> 0 \<and> ident \<noteq> dc_id dc then (dc, None)
                  else SendMessage dc (listEnd dc)"
  have "\<And>dc. snd (?f dc) = None" by (simp add: SendMessage_listEnd)
  from forEachDownstream_returns [of ?f net dcs, OF this]
  have "forEachDownstreamByID net ident (\<lambda>dc. SendMessage dc (listEnd dc)) dcs
     = (map (\<lambda>dc. if dc_network dc = Some (ID net) then fst (?f dc) else dc) dcs, None)"
    by (simp add: forEachDownstreamByID_def)
  also have "map (\<lambda>dc. if dc_network dc = Some (ID net) then fst (?f dc) else dc) dcs
     = map (\<lambda>dc. if visited (ID net) ident dc then queue (listEnd dc) dc else dc) dcs"
    by (rule map_cong) (auto simp: visited_def SendMessage_listEnd)
  finally show ?thesis .
qed

lemma map_fst_update_present:
  "map_of xs k = Some v \<Longrightarrow> map fst (AList.update k v' xs) = map fst xs"
  by (induction xs) (auto split: if_splits)

lemma map_fst_delete:
  "map fst (AList.delete k xs) = filter (\<lambda>k'. k' \<noteq> k) (map fst xs)"
  by (induction xs) auto

lemma trySendLIST_loop_keys:
  "map pendingKeys (snd (trySendLIST_loop uc netID d pls)) = map pendingKeys pls"
proof (induction pls)
  case Nil
  show ?case by simp
next
  case (Cons pl pls)
  show ?case
  proof (cases "downstreamID pl \<noteq> d \<or> map_of (pendingCommands pl) netID = None")
    case True
    with Cons show ?thesis
      by (cases "trySendLIST_loop uc netID d pls") auto
  next
    case False
    then obtain c where c: "map_of (pendingCommands pl) netID = Some c" by auto
    from False c show ?thesis
      by (cases "SendMessageLabeled uc d c")
        (simp add: pendingKeys_def map_fst_update_present [OF c])
  qed
qed

lemma setConn_frame [simp]:
  "pendingLISTs (setConn netID f u) = pendingLISTs u"
  "downstreamConns (setConn netID f u) = downstreamConns u"
  by (simp_all add: setConn_def)

lemma find_updateNetworkByID_some:
  assumes "\<And>n. ID (f n) = ID n" and "\<And>n. (conn (f n) = None) = (conn n = None)"
    and "find (\<lambda>net. ID net = i) nets = Some net"
  shows "\<exists>net'. find (\<lambda>net. ID net = i) (updateNetworkByID j f nets) = Some net'
           \<and> (conn net' = None) = (conn net = None)"
  using assms by (induction nets) (auto split: if_splits)

lemma getNetworkByID_setConn_some:
  assumes "getNetworkByID u i = Some net"
  shows "\<exists>net'. getNetworkByID (setConn netID f u) i = Some net'
           \<and> (conn net' = None) = (conn net = None)"
  using find_updateNetworkByID_some [of "\<lambda>n. n\<lparr>conn := map_option f (conn n)\<rparr>" i "networks u" net netID]
    assms
  by (simp add: getNetworkByID_def setConn_def)

lemma getNetworkByID_pendingLISTs [simp]:
  "getNetworkByID (u\<lparr>pendingLISTs := pls\<rparr>) i = getNetworkByID u i"
  "getNetworkByID (u\<lparr>downstreamConns := dcs\<rparr>) i = getNetworkByID u i"
  by (simp_all add: getNetworkByID_def)

lemma trySendLIST_keys:
  "map pendingKeys (pendingLISTs (trySendLIST d netID u)) = map pendingKeys (pendingLISTs u)"
proof (cases "getNetworkByID u netID")
  case None
  then show ?thesis by (simp add: trySendLIST_def)
next
  case (Some net)
  show ?thesis
  proof (cases "conn net")
    case None
    with Some show ?thesis by (simp add: trySendLIST_def)
  next
    case (Some uc)
    obtain uc' pls' where l: "trySendLIST_loop uc netID d (pendingLISTs u) = (uc', pls')"
      by (cases "trySendLIST_loop uc netID d (pendingLISTs u)")
    from trySendLIST_loop_keys [of uc netID d "pendingLISTs u"] l
    have "map pendingKeys pls' = map pendingKeys (pendingLISTs u)" by simp
    with \<open>getNetworkByID u netID = Some net\<close> Some l show ?thesis
      by (simp add: trySendLIST_def)
  qed
qed

lemma trySendLIST_downstreamConns:
  "downstreamConns (trySendLIST d netID u) = downstreamConns u"
  by (simp add: trySendLIST_def split: option.splits prod.splits)

lemma trySendLIST_network:
  assumes "getNetworkByID u i = Some net"
  shows "\<exists>net'. getNetworkByID (trySendLIST d netID u) i = Some net'
           \<and> (conn net' = None) = (conn net = None)"
proof -
  have "\<exists>net'. getNetworkByID (setConn netID f u) i = Some net'
           \<and> (conn net' = None) = (conn net = None)" for f
    by (rule getNetworkByID_setConn_some [OF assms])
  with assms show ?thesis
    by (simp add: trySendLIST_def split: option.splits prod.splits)
qed

lemma forEachUpstream_trySendLIST:
  fixes u :: "('st, 'x) user_scheme"
  defines "step \<equiv> \<lambda>d net (u :: ('st, 'x) user_scheme).
             if conn net = None then u else trySendLIST d (ID net) u"
  shows "map pendingKeys (pendingLISTs (fold (step d) nets u)) = map pendingKeys (pendingLISTs u)"
    and "downstreamConns (fold (step d) nets u) = downstreamConns u"
    and "getNetworkByID u i = Some net \<Longrightarrow>
         \<exists>net'. getNetworkByID (fold (step d) nets u) i = Some net'
           \<and> (conn net' = None) = (conn net = None)"
proof -
  show "map pendingKeys (pendingLISTs (fold (step d) nets u)) = map pendingKeys (pendingLISTs u)"
    by (induction nets arbitrary: u) (simp_all add: step_def trySendLIST_keys)
  show "downstreamConns (fold (step d) nets u) = downstreamConns u"
    by (induction nets arbitrary: u) (simp_all add: step_def trySendLIST_downstreamConns)
  show "getNetworkByID u i = Some net \<Longrightarrow>
         \<exists>net'. getNetworkByID (fold (step d) nets u) i = Some net'
           \<and> (conn net' = None) = (conn net = None)"
  proof (induction nets arbitrary: u net)
    case Nil
    then show ?case by simp
  next
    case (Cons n nets)
    from trySendLIST_network [OF Cons.prems, of d "ID n"] Cons.prems
    have "\<exists>net1. getNetworkByID (step d n u) i = Some net1
            \<and> (conn net1 = None) = (conn net = None)"
      by (cases "conn n = None") (simp_all add: step_def)
    then obtain net1 where n1: "getNetworkByID (step d n u) i = Some net1"
      "(conn net1 = None) = (conn net = None)" by auto
    from Cons.IH [OF n1(1)] n1(2) show ?case by simp
  qed
qed

lemma forEachUpstream_frame:
  "map pendingKeys (pendingLISTs (forEachUpstream (trySendLIST d) u)) = map pendingKeys (pendingLISTs u)"
  "downstreamConns (forEachUpstream (trySendLIST d) u) = downstreamConns u"
  "getNetworkByID u i = Some net \<Longrightarrow>
     \<exists>net'. getNetworkByID (forEachUpstream (trySendLIST d) u) i = Some net'
       \<and> (conn net' = None) = (conn net = None)"
  unfolding forEachUpstream_def
  by (rule forEachUpstream_trySendLIST)+

lemma delete_empty_remaining:
  "AList.delete netID (pendingCommands pl) = [] \<longleftrightarrow> remaining netID pl = []"
proof -
  have "AList.delete netID (pendingCommands pl) = []
     \<longleftrightarrow> map fst (AList.delete netID (pendingCommands pl)) = []" by simp
  then show ?thesis by (simp only: map_fst_delete remaining_def)
qed

text \<open>What \<^verbatim>\<open>endPendingLISTs(false)\<close> leaves before the upstream connections try the next LIST.\<close>

definition ended :: "network \<Rightarrow> pendingLIST list \<Rightarrow> pendingLIST \<Rightarrow> pendingLIST list \<Rightarrow>
    ('st, 'x) user_scheme \<Rightarrow> ('st, 'x) user_scheme" where
  "ended net before pl after u =
     u\<lparr>pendingLISTs :=
          before @ (if remaining (ID net) pl = [] then []
                    else [pl\<lparr>pendingCommands := AList.delete (ID net) (pendingCommands pl)\<rparr>])
            @ after,
       downstreamConns :=
          (if remaining (ID net) pl = []
           then map (\<lambda>dc. if visited (ID net) (downstreamID pl) dc then queue (listEnd dc) dc
                          else dc) (downstreamConns u)
           else downstreamConns u)\<rparr>"

lemma endPendingLISTs_loop_first:
  assumes "\<forall>p\<in>set before. map_of (pendingCommands p) (ID net) = None"
    and "map_of (pendingCommands pl) (ID net) = Some c"
  shows "endPendingLISTs_loop False net kept (before @ pl # after) found u =
     ((forEachUpstream (trySendLIST (downstreamID pl))
         (setConn (ID net)
            (\<lambda>c. c\<lparr>pendingLISTDownstreamSet := pendingLISTDownstreamSet c - {downstreamID pl}\<rparr>)
            (ended net (kept @ before) pl after u)), True), None)"
  using assms(1)
proof (induction before arbitrary: kept)
  case Nil
  show ?case
    by (simp add: assms(2) Let_def forEachDownstreamByID_listEnd delete_empty_remaining
        ended_def)
next
  case (Cons p before)
  from Cons.prems have p: "map_of (pendingCommands p) (ID net) = None"
    and rest: "\<forall>p\<in>set before. map_of (pendingCommands p) (ID net) = None" by simp_all
  from Cons.IH [OF rest, of "kept @ [p]"] p show ?case by simp
qed

lemma getNetworkByID_ID: "getNetworkByID u i = Some net \<Longrightarrow> ID net = i"
  by (auto simp: getNetworkByID_def find_Some_iff)

lemma endPendingLISTs_first:
  assumes "getNetworkByID u netID = Some net"
    and "pendingLISTs u = before @ pl # after"
    and "\<forall>p\<in>set before. map_of (pendingCommands p) netID = None"
    and "map_of (pendingCommands pl) netID = Some c"
  shows "\<exists>u' net'. endPendingLISTs False netID u = ((u', True), None)
     \<and> map pendingKeys (pendingLISTs u')
         = map pendingKeys before
           @ (if remaining netID pl = [] then [] else [(downstreamID pl, remaining netID pl)])
           @ map pendingKeys after
     \<and> downstreamConns u'
         = (if remaining netID pl = []
            then map (\<lambda>dc. if visited netID (downstreamID pl) dc then queue (listEnd dc) dc
                           else dc) (downstreamConns u)
            else downstreamConns u)
     \<and> getNetworkByID u' netID = Some net'
     \<and> (\<forall>i n. getNetworkByID u i = Some n \<longrightarrow>
           (\<exists>n'. getNetworkByID u' i = Some n' \<and> (conn n' = None) = (conn n = None)))"
proof -
  have i: "ID net = netID" by (rule getNetworkByID_ID [OF assms(1)])
  let ?e = "ended net before pl after u"
  let ?s = "setConn netID
      (\<lambda>c. c\<lparr>pendingLISTDownstreamSet := pendingLISTDownstreamSet c - {downstreamID pl}\<rparr>) ?e"
  let ?u = "forEachUpstream (trySendLIST (downstreamID pl)) ?s"
  from endPendingLISTs_loop_first [of before net pl c "[]" after False u] assms(3,4) i
  have r: "endPendingLISTs False netID u = ((?u, True), None)"
    by (simp add: endPendingLISTs_def assms(1,2))
  have k: "map pendingKeys (pendingLISTs ?u)
         = map pendingKeys before
           @ (if remaining netID pl = [] then [] else [(downstreamID pl, remaining netID pl)])
           @ map pendingKeys after"
    by (simp add: forEachUpstream_frame(1) ended_def i pendingKeys_def remaining_def
        map_fst_delete)
  have d: "downstreamConns ?u
         = (if remaining netID pl = []
            then map (\<lambda>dc. if visited netID (downstreamID pl) dc then queue (listEnd dc) dc
                           else dc) (downstreamConns u)
            else downstreamConns u)"
    by (simp add: forEachUpstream_frame(2) ended_def i)
  have "getNetworkByID ?e netID = Some net" by (simp add: ended_def assms(1))
  then have "\<exists>net1. getNetworkByID ?s netID = Some net1 \<and> (conn net1 = None) = (conn net = None)"
    by (rule getNetworkByID_setConn_some)
  then obtain net1 where "getNetworkByID ?s netID = Some net1" by auto
  from forEachUpstream_frame(3) [OF this]
  obtain net2 where n: "getNetworkByID ?u netID = Some net2" by auto
  have a: "\<exists>n'. getNetworkByID ?u j = Some n' \<and> (conn n' = None) = (conn x = None)"
    if "getNetworkByID u j = Some x" for j x
  proof -
    from that have "getNetworkByID ?e j = Some x" by (simp add: ended_def)
    then have "\<exists>x1. getNetworkByID ?s j = Some x1 \<and> (conn x1 = None) = (conn x = None)"
      by (rule getNetworkByID_setConn_some)
    then obtain x1 where x1: "getNetworkByID ?s j = Some x1" "(conn x1 = None) = (conn x = None)"
      by auto
    from forEachUpstream_frame(3) [OF x1(1)] x1(2) show ?thesis by auto
  qed
  from r k d n a show ?thesis by blast
qed

lemma forwardNumeric_returns:
  assumes "getNetworkByID u netID = Some net"
    and "numeric \<noteq> ''TAGMSG''" and "numeric \<noteq> ''JOIN''"
  shows "forwardNumeric u netID dsID numeric command reason =
     (u\<lparr>downstreamConns :=
          map (\<lambda>dc. if visited netID dsID dc then queue (numericTo dc numeric command reason) dc
                    else dc) (downstreamConns u)\<rparr>, Handled)"
proof -
  have i: "ID net = netID" by (rule getNetworkByID_ID [OF assms(1)])
  let ?m = "\<lambda>dc. \<lparr>Tags = [], Prefix = Some (srv_prefix dc), Command = numeric,
                    Params = [dc_nick dc, command, reason]\<rparr>"
  have s: "SendMessage dc (?m dc) = (queue (numericTo dc numeric command reason) dc, None)" for dc
    unfolding numericTo_def by (rule SendMessage_plain) (simp_all add: assms(2,3))
  let ?f = "\<lambda>dc. if dsID \<noteq> 0 \<and> dsID \<noteq> dc_id dc then (dc, None) else SendMessage dc (?m dc)"
  have "\<And>dc. snd (?f dc) = None" by (simp add: s)
  from forEachDownstream_returns [of ?f net "downstreamConns u", OF this]
  have "forEachDownstreamByID net dsID (\<lambda>dc. SendMessage dc (?m dc)) (downstreamConns u)
     = (map (\<lambda>dc. if dc_network dc = Some (ID net) then fst (?f dc) else dc)
          (downstreamConns u), None)"
    by (simp add: forEachDownstreamByID_def)
  also have "map (\<lambda>dc. if dc_network dc = Some (ID net) then fst (?f dc) else dc)
       (downstreamConns u)
     = map (\<lambda>dc. if visited netID dsID dc then queue (numericTo dc numeric command reason) dc
                  else dc) (downstreamConns u)"
    by (rule map_cong) (auto simp: visited_def s i)
  finally show ?thesis
    by (simp add: forwardNumeric_def assms(1))
qed

text \<open>
  What the answer of an upstream connection does. Let \<open>pl\<close> be the first pending LIST of
  the user that holds a command for the network \<open>netID\<close>. After \<^verbatim>\<open>endPendingLISTs(false)\<close>
  on the connection of that network, of all the pending commands of the user exactly the
  entry of \<open>netID\<close> in \<open>pl\<close> is gone. If other networks remain in \<open>pl\<close>, no downstream
  connection is sent anything. If none remains, \<open>pl\<close> is removed from the list, and the
  downstream connections that \<^verbatim>\<open>forEachDownstreamByID\<close> visits are sent one RPL_LISTEND
  each, with the server prefix; these are the connections with the ID of \<open>pl\<close> among
  those bound to the network \<open>netID\<close>. After ERR_UNKNOWNCOMMAND or RPL_TRYAGAIN for LIST
  the numeric itself is then passed on to the downstream connections of the label.
\<close>

lemma endPendingLISTs_answers:
  assumes "getNetworkByID u netID = Some net"
    and "pendingLISTs u = before @ pl # after"
    and "\<forall>p\<in>set before. map_of (pendingCommands p) netID = None"
    and "map_of (pendingCommands pl) netID = Some listCommand"
  shows "\<exists>u'. endPendingLISTs False netID u = ((u', True), None)
     \<and> caseLISTEND u netID = (u', Handled)
     \<and> map pendingKeys (pendingLISTs u')
         = map pendingKeys before
           @ (if remaining netID pl = [] then [] else [(downstreamID pl, remaining netID pl)])
           @ map pendingKeys after
     \<and> downstreamConns u'
         = (if remaining netID pl = []
            then map (\<lambda>dc. if visited netID (downstreamID pl) dc then queue (listEnd dc) dc
                           else dc) (downstreamConns u)
            else downstreamConns u)
     \<and> ((Command msg = ERR_UNKNOWNCOMMAND \<or> Command msg = RPL_TRYAGAIN)
          \<and> Params msg = p0 # ''LIST'' # reason # ps \<longrightarrow>
        caseUnknownCommandOrTryAgain u netID dsID msg
          = (u'\<lparr>downstreamConns :=
                 map (\<lambda>dc. if visited netID dsID dc
                           then queue (numericTo dc (Command msg) ''LIST'' reason) dc else dc)
                   (downstreamConns u')\<rparr>, Handled))"
proof -
  from endPendingLISTs_first [OF assms]
  obtain u' net' where r: "endPendingLISTs False netID u = ((u', True), None)"
    and k: "map pendingKeys (pendingLISTs u')
         = map pendingKeys before
           @ (if remaining netID pl = [] then [] else [(downstreamID pl, remaining netID pl)])
           @ map pendingKeys after"
    and d: "downstreamConns u'
         = (if remaining netID pl = []
            then map (\<lambda>dc. if visited netID (downstreamID pl) dc then queue (listEnd dc) dc
                           else dc) (downstreamConns u)
            else downstreamConns u)"
    and n: "getNetworkByID u' netID = Some net'"
    by blast
  have h: "caseLISTEND u netID = (u', Handled)"
    by (simp add: caseLISTEND_def r)
  have e: "caseUnknownCommandOrTryAgain u netID dsID msg
          = (u'\<lparr>downstreamConns :=
                 map (\<lambda>dc. if visited netID dsID dc
                           then queue (numericTo dc (Command msg) ''LIST'' reason) dc else dc)
                   (downstreamConns u')\<rparr>, Handled)"
    if c: "Command msg = ERR_UNKNOWNCOMMAND \<or> Command msg = RPL_TRYAGAIN"
      and p: "Params msg = p0 # ''LIST'' # reason # ps"
  proof -
    from c have "Command msg \<noteq> ''TAGMSG''" "Command msg \<noteq> ''JOIN''"
      by (auto simp: ERR_UNKNOWNCOMMAND_def RPL_TRYAGAIN_def)
    from forwardNumeric_returns [OF n this, of dsID "''LIST''" reason]
    show ?thesis by (simp add: caseUnknownCommandOrTryAgain_def p r)
  qed
  from r h k d e show ?thesis by blast
qed



text \<open>
  Claim C6 says that for a downstream LIST with pending commands on several networks
  each RPL_LISTEND of an upstream connection removes the entry of its network from the
  map of the pending LIST, and that exactly when the map becomes empty the downstream
  connection that sent the LIST is sent one RPL_LISTEND with the server prefix.
  The entries are removed as the claim says, but the downstream connection is sent
  nothing. A LIST goes to several networks only from a downstream connection that is
  bound to no network (\<^verbatim>\<open>downstreamConn.forEachUpstream\<close>), and
  \<^verbatim>\<open>network.forEachDownstream\<close>, through which \<^verbatim>\<open>endPendingLISTs\<close> looks for the
  connection by its ID, visits only the connections bound to the network. Here \<open>phone\<close>
  (ID 1, bound to no network) has sent LIST; it is pending on the networks 7 and 8, and
  both upstream connections have the command in flight. The network 8 answers
  RPL_LISTEND, then the network 7: both messages are handled without an error, first the
  entry of 8 and then the pending LIST are gone, and \<open>phone\<close> is as it was, with nothing
  in its queue.
\<close>

definition listCommand :: message where
  "listCommand = \<lparr>Tags = [], Prefix = None, Command = ''LIST'', Params = []\<rparr>"









section \<open>Registration errors and the run loop of a network (upstream.go, user.go)\<close>


































end
